theory Spec2Isabelle
  imports Main "HOL-Library.Word" "HOL-Library.AList"
begin

unbundle bit_operations_syntax

section \<open>Errors\<close>

text \<open>
  Go errors are values. The constructors below are the error types the client code
  tells apart: the two context errors, the two end-of-input errors of \<open>io\<close>, network errors, the two server failure types
  (with their code sequence and code string), and the smithy errors. \<open>CanceledError\<close> and
  \<open>OperationError\<close> wrap another error, as their \<open>Err\<close> field does.
\<close>

datatype errCode = ErrCodeInvalidParameter | ErrCodeOther string

datatype error =
    ContextCanceled
  | ContextDeadlineExceeded
  | EOF
  | ErrUnexpectedEOF
  | NetError string
  | DaxRequestFailure "int list" string
  | DaxTransactionCanceledFailure "int list" string
  | CanceledError error
  | OperationError error
  | SerializationError string
  | DeserializationError string
  | GenericAPIError errCode string
  | PlainError string

text \<open>\<open>errors.Is(err, target)\<close> for the two context sentinels: follows the \<open>Err\<close> chain.\<close>

fun errorsIs :: "error \<Rightarrow> error \<Rightarrow> bool" where
  "errorsIs (CanceledError e) t = (CanceledError e = t \<or> errorsIs e t)"
| "errorsIs (OperationError e) t = (OperationError e = t \<or> errorsIs e t)"
| "errorsIs e t = (e = t)"

section \<open>Health status (health\_status.go)\<close>

definition timeoutErrorThreshold :: int where
  "timeoutErrorThreshold = 5"

record enabledHealthStatus =
  endpoint :: string
  isHealthy :: bool
  curReadTimeoutCount :: int

text \<open>Calls made on the route listener, in order.\<close>

datatype 'r listenerCall = RemoveRoute string 'r | AddRoute string 'r

definition newHealthStatus :: "string \<Rightarrow> enabledHealthStatus" where
  "newHealthStatus ep = \<lparr>endpoint = ep, isHealthy = True, curReadTimeoutCount = 0\<rparr>"

subsection \<open>The two critical sections of each callback\<close>

text \<open>
  Each callback reads the status under \<open>RLock\<close>, releases the lock, and then, unless it
  has returned, takes \<open>Lock\<close> and updates the status. The lock is free between the two
  sections, and the callbacks run in the goroutines of the read requests, so a section of
  another call can run in between. Each section is one definition: the first says whether
  the call goes on to the second. \<open>isIOError\<close> is not part of the sources at hand and is a
  parameter.
\<close>

definition onErrorInReadRequest_rlock ::
  "(error \<Rightarrow> bool) \<Rightarrow> enabledHealthStatus \<Rightarrow> error \<Rightarrow> bool" where
  "onErrorInReadRequest_rlock isIOError hs err =
     (if \<not> isIOError err then False
      else if \<not> isHealthy hs then False
      else True)"

definition onErrorInReadRequest_lock ::
  "enabledHealthStatus \<Rightarrow> 'r \<Rightarrow> enabledHealthStatus \<times> 'r listenerCall list" where
  "onErrorInReadRequest_lock hs route =
     (let hs1 = hs\<lparr>curReadTimeoutCount := curReadTimeoutCount hs + 1\<rparr>
      in if curReadTimeoutCount hs1 \<ge> timeoutErrorThreshold
         then (hs1\<lparr>isHealthy := False\<rparr>, [RemoveRoute (endpoint hs1) route])
         else (hs1, []))"

definition onSuccessInReadRequest_rlock :: "enabledHealthStatus \<Rightarrow> bool" where
  "onSuccessInReadRequest_rlock hs =
     (if curReadTimeoutCount hs = 0 \<or> \<not> isHealthy hs then False else True)"

definition onSuccessInReadRequest_lock :: "enabledHealthStatus \<Rightarrow> enabledHealthStatus" where
  "onSuccessInReadRequest_lock hs = hs\<lparr>curReadTimeoutCount := 0\<rparr>"

definition onHealthCheckSuccess_rlock :: "enabledHealthStatus \<Rightarrow> bool" where
  "onHealthCheckSuccess_rlock hs =
     (if curReadTimeoutCount hs = 0 \<and> isHealthy hs then False else True)"

definition onHealthCheckSuccess_lock ::
  "enabledHealthStatus \<Rightarrow> 'r \<Rightarrow> enabledHealthStatus \<times> 'r listenerCall list" where
  "onHealthCheckSuccess_lock hs route =
     (let hs1 = hs\<lparr>curReadTimeoutCount := 0\<rparr>
      in if \<not> isHealthy hs1
         then (hs1\<lparr>isHealthy := True\<rparr>, [AddRoute (endpoint hs1) route])
         else (hs1, []))"

subsection \<open>Goroutines calling the callbacks\<close>

text \<open>
  A goroutine that calls a callback is at its entry, or between the two sections (it has
  released the read lock and has yet to get the write lock), or has returned. A step
  runs the next section of one goroutine on the shared status; the two locks make each
  section atomic, and nothing else orders the sections of different goroutines. A
  schedule is the list of the goroutines that take the steps.
\<close>

datatype 'r hsCall =
    OnErrorInReadRequest error 'r
  | OnSuccessInReadRequest
  | OnHealthCheckSuccess 'r

datatype 'r goroutine = Entry "'r hsCall" | AtLock "'r hsCall" | Returned

record 'r hsWorld =
  status :: enabledHealthStatus
  listener :: "'r listenerCall list"
  goroutines :: "'r goroutine list"

fun rlockSection :: "(error \<Rightarrow> bool) \<Rightarrow> enabledHealthStatus \<Rightarrow> 'r hsCall \<Rightarrow> bool" where
  "rlockSection isIOError hs (OnErrorInReadRequest err route) =
     onErrorInReadRequest_rlock isIOError hs err"
| "rlockSection isIOError hs OnSuccessInReadRequest = onSuccessInReadRequest_rlock hs"
| "rlockSection isIOError hs (OnHealthCheckSuccess route) = onHealthCheckSuccess_rlock hs"

fun lockSection ::
  "enabledHealthStatus \<Rightarrow> 'r hsCall \<Rightarrow> enabledHealthStatus \<times> 'r listenerCall list" where
  "lockSection hs (OnErrorInReadRequest err route) = onErrorInReadRequest_lock hs route"
| "lockSection hs OnSuccessInReadRequest = (onSuccessInReadRequest_lock hs, [])"
| "lockSection hs (OnHealthCheckSuccess route) = onHealthCheckSuccess_lock hs route"

definition hsStep :: "(error \<Rightarrow> bool) \<Rightarrow> 'r hsWorld \<Rightarrow> nat \<Rightarrow> 'r hsWorld" where
  "hsStep isIOError w k =
     (if k \<ge> length (goroutines w) then w
      else
        case goroutines w ! k of
          Entry c \<Rightarrow>
            w\<lparr>goroutines :=
                (goroutines w)[k := (if rlockSection isIOError (status w) c then AtLock c
                                     else Returned)]\<rparr>
        | AtLock c \<Rightarrow>
            (case lockSection (status w) c of
               (hs1, calls) \<Rightarrow>
                 w\<lparr>status := hs1, listener := listener w @ calls,
                    goroutines := (goroutines w)[k := Returned]\<rparr>)
        | Returned \<Rightarrow> w)"

definition hsRun :: "(error \<Rightarrow> bool) \<Rightarrow> 'r hsWorld \<Rightarrow> nat list \<Rightarrow> 'r hsWorld" where
  "hsRun isIOError w schedule = foldl (hsStep isIOError) w schedule"

definition hsStart :: "string \<Rightarrow> 'r hsCall list \<Rightarrow> 'r hsWorld" where
  "hsStart ep calls =
     \<lparr>status = newHealthStatus ep, listener = [], goroutines = map Entry calls\<rparr>"

subsection \<open>A call on its own\<close>

text \<open>
  The run of one call when no section of another call comes between its two sections:
  the status it leaves and the calls it makes on the listener.
\<close>

definition callAlone ::
  "(error \<Rightarrow> bool) \<Rightarrow> enabledHealthStatus \<Rightarrow> 'r hsCall
     \<Rightarrow> enabledHealthStatus \<times> 'r listenerCall list" where
  "callAlone isIOError hs c =
     (if rlockSection isIOError hs c then lockSection hs c else (hs, []))"

text \<open>
  The states a health status goes through when its calls come one after the other: it
  starts healthy with count 0; while it is healthy its count stays between 0 and 4, and an
  unhealthy status has count 5.
\<close>

definition hsInv :: "enabledHealthStatus \<Rightarrow> bool" where
  "hsInv hs = (if isHealthy hs then 0 \<le> curReadTimeoutCount hs \<and> curReadTimeoutCount hs < 5
               else curReadTimeoutCount hs = 5)"

text \<open>
  Modelled from the spec: \<open>isIOError\<close> (error.go is not among the sources) holds for a
  deadline-exceeded error and for a network error; the tests pass
  \<open>context.DeadlineExceeded\<close> for such an error.
\<close>

fun testIsIOError :: "error \<Rightarrow> bool" where
  "testIsIOError ContextDeadlineExceeded = True"
| "testIsIOError (NetError msg) = True"
| "testIsIOError e = False"


section \<open>Cluster membership (cluster.go)\<close>

record serviceEndpoint =
  nodeId :: int
  hostname :: string
  address :: "8 word list"
  port :: int
  role :: int
  availabilityZone :: string
  leaderSessionId :: int

datatype hostPort = HostPort (host: string) (hpPort: int)

text \<open>
  A \<open>DaxAPI\<close> interface value is \<open>'c option\<close>: \<open>None\<close> is the nil interface,
  \<open>Some c\<close> a client \<open>c\<close>.
\<close>

record 'c clientAndConfig =
  client :: "'c option"
  cfg :: serviceEndpoint

text \<open>
  What the cluster code takes from outside itself: the client builder (it has a state
  \<open>'b\<close> of its own, and returns the pair of Go results), \<open>net.IP.String\<close>, and the two
  interface tests made on a client (\<open>HealthCheckDaxAPI\<close>, \<open>io.Closer\<close>).
\<close>

record ('c, 'b) clusterEnv =
  newClient :: "'b \<Rightarrow> serviceEndpoint \<Rightarrow> ('c option \<times> error option) \<times> 'b"
  ipString :: "8 word list \<Rightarrow> string"
  isHealthCheckDaxAPI :: "'c \<Rightarrow> bool"
  isCloser :: "'c \<Rightarrow> bool"

text \<open>
  The cluster. \<open>active\<close> is the Go map \<open>map[hostPort]clientAndConfig\<close>, kept as an
  association list read with \<open>map_of\<close> and written with \<open>AList.update\<close>; the order of
  the list stands for the order in which a \<open>range\<close> over the map visits it, which Go
  leaves open. \<open>routes\<close> is the route list held by the route manager.
  \<open>closeCalls\<close> and \<open>healthCheckCalls\<close> record the \<open>Close()\<close> and
  \<open>startHealthChecks\<close> calls made on clients.
\<close>

record ('c, 'b) cluster =
  active :: "(hostPort \<times> 'c clientAndConfig) list"
  routes :: "'c option list"
  closed :: bool
  lastRefreshErr :: "error option"
  clientBuilder :: 'b
  closeCalls :: "'c list"
  healthCheckCalls :: "('c \<times> hostPort) list"

definition hostPort :: "('c, 'b) clusterEnv \<Rightarrow> serviceEndpoint \<Rightarrow> hostPort" where
  "hostPort env e = HostPort (ipString env (address e)) (port e)"

text \<open>
  Modelled from the spec: \<open>RouteManager.setRoutes\<close> (route\_manager.go is not among the
  sources) replaces the route list.
\<close>

definition setRoutes :: "'c option list \<Rightarrow> ('c, 'b) cluster \<Rightarrow> ('c, 'b) cluster" where
  "setRoutes rs c = c\<lparr>routes := rs\<rparr>"

definition closeClient ::
  "('c, 'b) clusterEnv \<Rightarrow> 'c option \<Rightarrow> ('c, 'b) cluster \<Rightarrow> ('c, 'b) cluster" where
  "closeClient env cl c =
     (case cl of
        None \<Rightarrow> c
      | Some d \<Rightarrow> if isCloser env d then c\<lparr>closeCalls := closeCalls c @ [d]\<rparr> else c)"

fun closeClients ::
  "('c, 'b) clusterEnv \<Rightarrow> 'c clientAndConfig list \<Rightarrow> ('c, 'b) cluster \<Rightarrow> ('c, 'b) cluster" where
  "closeClients env [] c = c"
| "closeClients env (x # xs) c = closeClients env xs (closeClient env (client x) c)"

definition startHealthChecks ::
  "('c, 'b) clusterEnv \<Rightarrow> 'c option \<Rightarrow> hostPort \<Rightarrow> ('c \<times> hostPort) list
     \<Rightarrow> ('c \<times> hostPort) list" where
  "startHealthChecks env cl hp hcs =
     (case cl of
        None \<Rightarrow> hcs
      | Some d \<Rightarrow> if isHealthCheckDaxAPI env d then hcs @ [(d, hp)] else hcs)"

text \<open>
  The second loop of \<open>update\<close>, over the new roster. The accumulator holds
  \<open>newActive\<close>, \<open>newRoutes\<close> (the entries filled so far; the source allocates the
  whole slice with nil entries and fills index \<open>i\<close>), \<open>newCliCfg\<close>, the builder and
  the health checks started. The result's first component is \<open>shouldUpdateRoutes\<close>;
  a failed build stops the loop (\<open>break\<close>).
\<close>

fun createClients ::
  "('c, 'b) clusterEnv \<Rightarrow> (hostPort \<times> 'c clientAndConfig) list \<Rightarrow> serviceEndpoint list
     \<Rightarrow> (hostPort \<times> 'c clientAndConfig) list \<times> 'c option list \<times> 'c clientAndConfig list
         \<times> 'b \<times> ('c \<times> hostPort) list
     \<Rightarrow> bool \<times> (hostPort \<times> 'c clientAndConfig) list \<times> 'c option list
         \<times> 'c clientAndConfig list \<times> 'b \<times> ('c \<times> hostPort) list" where
  "createClients env oldActive [] acc = (True, acc)"
| "createClients env oldActive (ep # eps) (newActive, newRoutes, newCliCfg, b, hcs) =
     (case map_of oldActive (hostPort env ep) of
        Some cliAndCfg \<Rightarrow>
          createClients env oldActive eps
            (AList.update (hostPort env ep) cliAndCfg newActive,
             newRoutes @ [client cliAndCfg], newCliCfg, b, hcs)
      | None \<Rightarrow>
          (case newClient env b ep of
             ((cli, Some err), b') \<Rightarrow> (False, newActive, newRoutes, newCliCfg, b', hcs)
           | ((cli, None), b') \<Rightarrow>
               let cliAndCfg = \<lparr>client = cli, cfg = ep\<rparr>
               in createClients env oldActive eps
                    (AList.update (hostPort env ep) cliAndCfg newActive,
                     newRoutes @ [cli], newCliCfg @ [cliAndCfg], b',
                     startHealthChecks env cli (hostPort env ep) hcs)))"

text \<open>
  \<open>cluster.update\<close>. The clients in \<open>toClose\<close> are closed by a goroutine started at
  the end; the model runs it to completion. The function returns nil on every path.
\<close>

definition update ::
  "('c, 'b) clusterEnv \<Rightarrow> serviceEndpoint list \<Rightarrow> ('c, 'b) cluster
     \<Rightarrow> error option \<times> ('c, 'b) cluster" where
  "update env config c =
     (let newEndpoints = map (hostPort env) config;
          oldActive = active c
      in if closed c then (None, closeClients env [] c)
         else
           let toClose = map snd (filter (\<lambda>(ep, clicfg). ep \<notin> set newEndpoints) oldActive);
               (shouldUpdateRoutes, newActive, newRoutes, newCliCfg, b, hcs) =
                  createClients env oldActive config
                    ([], [], [], clientBuilder c, healthCheckCalls c);
               c1 = c\<lparr>clientBuilder := b, healthCheckCalls := hcs\<rparr>
           in if shouldUpdateRoutes
              then (None, closeClients env toClose (setRoutes newRoutes (c1\<lparr>active := newActive\<rparr>)))
              else (None, closeClients env (toClose @ newCliCfg) c1))"

text \<open>
  \<open>cluster.onHealthCheckFailed\<close>. When \<open>host\<close> is not a key, \<open>oldClientConfig\<close> is
  the zero value, whose client is nil, and \<open>shouldCloseOldClient\<close> is still true.
\<close>

definition onHealthCheckFailed ::
  "('c, 'b) clusterEnv \<Rightarrow> hostPort \<Rightarrow> ('c, 'b) cluster \<Rightarrow> ('c, 'b) cluster" where
  "onHealthCheckFailed env hp c =
     (case map_of (active c) hp of
        None \<Rightarrow> closeClient env None c
      | Some oldClientConfig \<Rightarrow>
          (case newClient env (clientBuilder c) (cfg oldClientConfig) of
             ((cli, err), b) \<Rightarrow>
               let c1 = c\<lparr>clientBuilder := b,
                          healthCheckCalls := startHealthChecks env cli hp (healthCheckCalls c)\<rparr>
               in (case err of
                     None \<Rightarrow>
                       let act = AList.update hp \<lparr>client = cli, cfg = cfg oldClientConfig\<rparr> (active c1)
                       in closeClient env (client oldClientConfig)
                            (setRoutes (map (\<lambda>(k, cliAndCfg). client cliAndCfg) act) (c1\<lparr>active := act\<rparr>))
                   | Some e \<Rightarrow> c1)))"

subsection \<open>Decimal rendering of numbers\<close>

text \<open>Go's \<open>strconv.Itoa\<close> / \<open>FormatInt\<close> in base 10.\<close>

definition digitChar :: "nat \<Rightarrow> char" where
  "digitChar d = ''0123456789'' ! d"

fun showNat :: "nat \<Rightarrow> string" where
  "showNat n = (if n < 10 then [digitChar n] else showNat (n div 10) @ [digitChar (n mod 10)])"

declare showNat.simps [simp del]

definition showInt :: "int \<Rightarrow> string" where
  "showInt i = (if i < 0 then CHR ''-'' # showNat (nat (- i)) else showNat (nat i))"

subsection \<open>The fixtures of cluster\_test.go\<close>

text \<open>
  The test suite builds its clusters from endpoints that have a host name and a port and
  no address, with a client builder that numbers the clients it hands out
  (\<open>testClientBuilder\<close>). \<open>failingClientBuilder\<close> is that builder made to fail on
  the ports listed. \<open>testIpString\<close> is \<open>net.IP.String\<close> on the nil address and on
  four-byte addresses.
\<close>

definition testEndpoint :: "int \<Rightarrow> serviceEndpoint" where
  "testEndpoint p = \<lparr>nodeId = 0, hostname = ''localhost'', address = [], port = p, role = 0,
     availabilityZone = [], leaderSessionId = 0\<rparr>"

fun dotted :: "8 word list \<Rightarrow> string" where
  "dotted [] = []"
| "dotted [b] = showNat (unat b)"
| "dotted (b # bs) = showNat (unat b) @ ''.'' @ dotted bs"

definition testIpString :: "8 word list \<Rightarrow> string" where
  "testIpString a = (if a = [] then ''<nil>'' else dotted a)"

definition failingClientBuilder ::
  "int list \<Rightarrow> nat \<Rightarrow> serviceEndpoint \<Rightarrow> (nat option \<times> error option) \<times> nat" where
  "failingClientBuilder bad b ep =
     (if port ep \<in> set bad then ((None, Some (PlainError ''build failed'')), b)
      else ((Some b, None), Suc b))"

definition testEnv :: "int list \<Rightarrow> (nat, nat) clusterEnv" where
  "testEnv bad = \<lparr>newClient = failingClientBuilder bad, ipString = testIpString,
     isHealthCheckDaxAPI = (\<lambda>d. True), isCloser = (\<lambda>d. True)\<rparr>"

definition newTestCluster :: "(nat, nat) cluster" where
  "newTestCluster = \<lparr>active = [], routes = [], closed = False, lastRefreshErr = None,
     clientBuilder = 0, closeCalls = [], healthCheckCalls = []\<rparr>"

text \<open>The cluster of scenario 3: \<open>A\<close> at port 1 (client 0) and \<open>B\<close> at port 2 (client 1).\<close>

definition clusterAB :: "(nat, nat) cluster" where
  "clusterAB = snd (update (testEnv []) [testEndpoint 1, testEndpoint 2] newTestCluster)"

section \<open>The per-node client (single.go)\<close>

definition emptyAttributeListId :: int where
  "emptyAttributeListId = 1"

definition authTtlSecs :: int where
  "authTtlSecs = 5 * 60"

text \<open>\<open>authTtlSecs * tubeAuthWindowScalar\<close>, a constant expression: 300 * 0.75.\<close>

definition tubeAuthWindowSecs :: int where
  "tubeAuthWindowSecs = 225"

definition opDefineAttributeList :: string where
  "opDefineAttributeList = ''DefineAttributeList''"

definition opDefineAttributeListId :: string where
  "opDefineAttributeListId = ''DefineAttributeListId''"

record RequestOptions =
  RetryMaxAttempts :: int
  RetryDelay :: int

text \<open>\<open>RequestOptions{}\<close>, the zero value.\<close>

definition zeroRequestOptions :: RequestOptions where
  "zeroRequestOptions = \<lparr>RetryMaxAttempts = 0, RetryDelay = 0\<rparr>"

subsection \<open>Attribute list ids\<close>

text \<open>
  \<open>defineAttributeListId\<close> and \<open>defineAttributeList\<close>. The parameter
  \<open>executeWithRetries\<close> stands for the call
  \<open>client.executeWithRetries(ctx, op, opt, encoder, decoder)\<close> with the encoder's input:
  it runs on the state \<open>'s\<close> of the connection and the server and returns the error and
  the value the decoder left in \<open>out\<close>. The results are the pairs the Go functions
  return.
\<close>

definition defineAttributeListId ::
  "(string \<Rightarrow> RequestOptions \<Rightarrow> string list \<Rightarrow> 's \<Rightarrow> (error option \<times> int) \<times> 's)
     \<Rightarrow> string list \<Rightarrow> 's \<Rightarrow> (int \<times> error option) \<times> 's" where
  "defineAttributeListId executeWithRetries attrNames s =
     (if length attrNames = 0 then ((emptyAttributeListId, None), s)
      else
        (case executeWithRetries opDefineAttributeListId zeroRequestOptions attrNames s of
           ((Some err, out), s') \<Rightarrow> ((0, Some err), s')
         | ((None, out), s') \<Rightarrow> ((out, None), s')))"

definition defineAttributeList ::
  "(string \<Rightarrow> RequestOptions \<Rightarrow> int \<Rightarrow> 's \<Rightarrow> (error option \<times> string list) \<times> 's)
     \<Rightarrow> int \<Rightarrow> 's \<Rightarrow> (string list \<times> error option) \<times> 's" where
  "defineAttributeList executeWithRetries id' s =
     (if id' = emptyAttributeListId then (([], None), s)
      else
        (case executeWithRetries opDefineAttributeList zeroRequestOptions id' s of
           ((Some err, out), s') \<Rightarrow> (([], Some err), s')
         | ((None, out), s') \<Rightarrow> ((out, None), s')))"

subsection \<open>The execute pipeline\<close>

record tube =
  tubeId :: nat
  currentAuthID :: string
  authExpiryUnix :: int

datatype poolCall = Put tube | CloseTube tube

record credentials =
  AccessKeyID :: string
  SessionToken :: string

text \<open>
  What one run of \<open>executeWithContext\<close> meets outside its own code: the results of the
  pool, of the credentials provider, of the writes and reads on the tube, of the two
  callbacks, and the two readings of the clock.
\<close>

record execOutcome =
  getWithContext :: "error + tube"
  setDeadline :: "error option"
  ctxErr :: "error option"
  Retrieve :: "error + credentials"
  authTime :: int
  encodeAuthInput :: "error option"
  authFlush :: "error option"
  encoder :: "error option"
  Flush :: "error option"
  decodeError :: "error option \<times> error option"
  decoder :: "error option"
  recycleTime :: int

text \<open>
  Modelled from the spec: \<open>compareAndSwapAuthID(newId)\<close> of the tube (tube.go is not
  among the sources) stores the new id and is true if it changed.
\<close>

definition CompareAndSwapAuthID :: "tube \<Rightarrow> string \<Rightarrow> bool \<times> tube" where
  "CompareAndSwapAuthID t a = (currentAuthID t \<noteq> a, t\<lparr>currentAuthID := a\<rparr>)"

definition auth :: "execOutcome \<Rightarrow> tube \<Rightarrow> error option \<times> tube" where
  "auth oc t =
     (case Retrieve oc of
        Inl err \<Rightarrow> (Some err, t)
      | Inr creds \<Rightarrow>
          (case CompareAndSwapAuthID t (AccessKeyID creds) of
             (changed, t1) \<Rightarrow>
               if changed \<or> authExpiryUnix t1 \<le> authTime oc then
                 (case encodeAuthInput oc of
                    Some err \<Rightarrow> (Some err, t1)
                  | None \<Rightarrow>
                      (case authFlush oc of
                         Some err \<Rightarrow> (Some err, t1)
                       | None \<Rightarrow>
                           (None, t1\<lparr>authExpiryUnix := authTime oc + tubeAuthWindowSecs\<rparr>)))
               else (None, t1)))"

text \<open>
  \<open>recycleTube\<close>. The tube is \<open>tube option\<close> for the nil test. The type assertion
  \<open>err.(*daxRequestFailure)\<close> holds for that one type. \<open>authError\<close> is a method of the
  failure that is not among the sources, and a parameter.
\<close>

fun isDaxRequestFailure :: "error \<Rightarrow> bool" where
  "isDaxRequestFailure (DaxRequestFailure codes code) = True"
| "isDaxRequestFailure e = False"

definition recycleTube ::
  "(error \<Rightarrow> bool) \<Rightarrow> int \<Rightarrow> tube option \<Rightarrow> error option \<Rightarrow> poolCall list" where
  "recycleTube authError now t err =
     (case t of
        None \<Rightarrow> []
      | Some tb \<Rightarrow>
          (case err of
             None \<Rightarrow> [Put tb]
           | Some e \<Rightarrow>
               if isDaxRequestFailure e
               then [Put (if authError e then tb\<lparr>authExpiryUnix := now\<rparr> else tb)]
               else [CloseTube tb]))"

text \<open>
  \<open>executeWithContext\<close>: the error returned and the calls made on the pool with the
  tube. The metrics recorded around the run are left out.
\<close>

definition executeWithContext ::
  "(error \<Rightarrow> bool) \<Rightarrow> execOutcome \<Rightarrow> error option \<times> poolCall list" where
  "executeWithContext authError oc =
     (case getWithContext oc of
        Inl err \<Rightarrow> (Some err, [])
      | Inr t \<Rightarrow>
          (case setDeadline oc of
             Some err \<Rightarrow>
               if Some err = ctxErr oc then (Some err, [Put t]) else (Some err, [CloseTube t])
           | None \<Rightarrow>
               (case auth oc t of
                  (Some err, t1) \<Rightarrow> (Some err, [CloseTube t1])
                | (None, t1) \<Rightarrow>
                    (case encoder oc of
                       Some err \<Rightarrow> (Some err, [CloseTube t1])
                     | None \<Rightarrow>
                         (case Flush oc of
                            Some err \<Rightarrow> (Some err, [CloseTube t1])
                          | None \<Rightarrow>
                              (case decodeError oc of
                                 (ex, Some err) \<Rightarrow> (Some err, [CloseTube t1])
                               | (Some ex, None) \<Rightarrow>
                                   (Some ex, recycleTube authError (recycleTime oc) (Some t1) (Some ex))
                               | (None, None) \<Rightarrow>
                                   (case decoder oc of
                                      Some err \<Rightarrow> (Some err, [CloseTube t1])
                                    | None \<Rightarrow> (None, [Put t1]))))))))"

subsection \<open>The retry loops\<close>

text \<open>
  What the two retry loops call outside their own code, as functions on a state \<open>'s\<close>
  of the world: one run of \<open>executeWithContext\<close>, \<open>SleepWithContext\<close> with the delay,
  \<open>translateError\<close>, and for the cluster client the route manager's \<open>getRoute\<close>, the
  action, \<open>isRetryable\<close>, the retryer's \<open>RetryDelay\<close> and \<open>convertDaxError\<close>.
\<close>

record ('c, 's) retryEnv =
  exec :: "'s \<Rightarrow> error option \<times> 's"
  SleepWithContext :: "int \<Rightarrow> 's \<Rightarrow> error option \<times> 's"
  translateError :: "error option \<Rightarrow> error option"
  getRoute :: "'c option \<Rightarrow> 's \<Rightarrow> 'c option \<times> 's"
  action :: "'c option \<Rightarrow> RequestOptions \<Rightarrow> 's \<Rightarrow> error option \<times> 's"
  isRetryable :: "RequestOptions \<Rightarrow> error \<Rightarrow> bool"
  RetryerRetryDelay :: "int \<Rightarrow> error \<Rightarrow> int"
  convertDaxError :: "error \<Rightarrow> error"

text \<open>
  The loop of \<open>executeWithRetries\<close> from index \<open>i\<close>, with the current \<open>err\<close> and
  the number of \<open>executeWithContext\<close> calls made so far.
\<close>

function executeLoop ::
  "('c, 's) retryEnv \<Rightarrow> RequestOptions \<Rightarrow> int \<Rightarrow> int \<Rightarrow> error option \<Rightarrow> nat \<Rightarrow> 's
     \<Rightarrow> error option \<times> nat \<times> 's" where
  "executeLoop env o' attempts i err n s =
     (if i \<le> attempts then
        (case exec env s of
           (None, s1) \<Rightarrow> (None, n + 1, s1)
         | (Some e, s1) \<Rightarrow>
             if errorsIs e ContextCanceled then (Some (CanceledError e), n + 1, s1)
             else if i \<noteq> attempts then
               (case SleepWithContext env (RetryDelay o') s1 of
                  (Some sleepErr, s2) \<Rightarrow> (Some (OperationError sleepErr), n + 1, s2)
                | (None, s2) \<Rightarrow> executeLoop env o' attempts (i + 1) (Some e) (n + 1) s2)
             else executeLoop env o' attempts (i + 1) (Some e) (n + 1) s1)
      else (translateError env err, n, s))"
  by pat_completeness auto
termination
  by (relation "measure (\<lambda>(env, o', attempts, i, err, n, s). nat (attempts + 1 - i))") auto

declare executeLoop.simps [simp del]

definition executeWithRetries ::
  "('c, 's) retryEnv \<Rightarrow> RequestOptions \<Rightarrow> 's \<Rightarrow> error option \<times> nat \<times> 's" where
  "executeWithRetries env o' s = executeLoop env o' (RetryMaxAttempts o') 0 None 0 s"

text \<open>\<open>cluster.client\<close>: the next route, or an error when there is none.\<close>

definition clusterClient ::
  "('c, 's) retryEnv \<Rightarrow> 'c option \<Rightarrow> 's \<Rightarrow> ('c option \<times> error option) \<times> 's" where
  "clusterClient env prev s =
     (case getRoute env prev s of
        (None, s1) \<Rightarrow> ((None, Some (OperationError (PlainError ''no routes found''))), s1)
      | (Some route, s1) \<Rightarrow> ((Some route, None), s1))"

text \<open>
  The loop of \<open>ClusterDaxClient.retry\<close> from index \<open>i\<close>, with the current \<open>client\<close>
  and \<open>err\<close>. \<open>calls\<close> lists the invocations of the action, each with the client and
  the options it was given.
\<close>

function retryLoop ::
  "('c, 's) retryEnv \<Rightarrow> RequestOptions \<Rightarrow> int \<Rightarrow> int \<Rightarrow> 'c option \<Rightarrow> error option
     \<Rightarrow> ('c option \<times> RequestOptions) list \<Rightarrow> 's
     \<Rightarrow> error option \<times> ('c option \<times> RequestOptions) list \<times> 's" where
  "retryLoop env opt attempts i cl err calls s =
     (if i \<le> attempts then
        (case clusterClient env cl s of
           ((cl1, err1), s1) \<Rightarrow>
             (case (case err1 of
                      None \<Rightarrow>
                        (case action env cl1 opt s1 of
                           (e, s2) \<Rightarrow> (e, calls @ [(cl1, opt)], s2))
                    | Some e \<Rightarrow> (Some e, calls, s1)) of
                (None, calls2, s2) \<Rightarrow> (None, calls2, s2)
              | (Some e, calls2, s2) \<Rightarrow>
                  if \<not> isRetryable env opt e then (Some e, calls2, s2)
                  else if i \<noteq> attempts then
                    (let delay0 = RetryerRetryDelay env (i + 1) e;
                         delay = (if delay0 = 0 then RetryDelay opt else delay0)
                     in if delay > 0 then
                          (case SleepWithContext env delay s2 of
                             (Some sleepErr, s3) \<Rightarrow> (Some sleepErr, calls2, s3)
                           | (None, s3) \<Rightarrow>
                               retryLoop env opt attempts (i + 1) cl1 None calls2 s3)
                        else retryLoop env opt attempts (i + 1) cl1 (Some e) calls2 s2)
                  else retryLoop env opt attempts (i + 1) cl1 (Some e) calls2 s2))
      else (err, calls, s))"
  by pat_completeness auto
termination
  by (relation "measure (\<lambda>(env, opt, attempts, i, cl, err, calls, s). nat (attempts + 1 - i))")
     auto

declare retryLoop.simps [simp del]

text \<open>
  The type assertion \<open>err.(daxError)\<close> of the deferred function: the two server failure
  types are the implementations of that interface.
\<close>

fun isDaxError :: "error \<Rightarrow> bool" where
  "isDaxError (DaxRequestFailure codes code) = True"
| "isDaxError (DaxTransactionCanceledFailure codes code) = True"
| "isDaxError e = False"

definition retry ::
  "('c, 's) retryEnv \<Rightarrow> RequestOptions \<Rightarrow> 's
     \<Rightarrow> error option \<times> ('c option \<times> RequestOptions) list \<times> 's" where
  "retry env opt s =
     (let attempts = RetryMaxAttempts opt;
          opt0 = opt\<lparr>RetryMaxAttempts := 0\<rparr>
      in case retryLoop env opt0 attempts 0 None None [] s of
           (err, calls, s1) \<Rightarrow>
             ((case err of
                 None \<Rightarrow> None
               | Some e \<Rightarrow> if isDaxError e then Some (convertDaxError env e) else Some e),
              calls, s1))"

text \<open>
  Modelled from the spec: \<open>isRetryable\<close> (error.go and the retryer are not among the
  sources). The spec's classification: a \<open>daxRequestFailure\<close> is retryable when its code
  sequence begins with 1, with 2 or with 4, 23, 31, 33, or when it stands for a throttling
  condition (\<open>throttling\<close>, a parameter); context-cancel and deadline-exceeded errors,
  parameter errors, raw I/O and encode errors are not retryable.
\<close>

fun isRetryableSpec :: "(int list \<Rightarrow> string \<Rightarrow> bool) \<Rightarrow> RequestOptions \<Rightarrow> error \<Rightarrow> bool" where
  "isRetryableSpec throttling opt (DaxRequestFailure codes code) =
     (take 1 codes = [1] \<or> take 1 codes = [2] \<or> take 4 codes = [4, 23, 31, 33]
      \<or> throttling codes code)"
| "isRetryableSpec throttling opt e = False"


subsection \<open>The fixtures of single\_test.go and of the retryer test\<close>

text \<open>
  The tests drive the retry loops with callbacks that fail a scripted number of times.
  Here the state of the world is the script, the list of results still to come, and a run
  takes the next one (success when the script is used up). \<open>testTranslateError\<close> is
  \<open>translateError\<close> as \<open>TestRetryPropagatesOtherErrors\<close> and \<open>TestRetryLastError\<close>
  show it: a server failure is kept, any other error becomes a failure with code
  sequence \<open>[0]\<close>. \<open>testIsRetryable\<close> is the retryer as
  \<open>TestDaxRetryer_IsErrorRetryable\<close> shows it.
\<close>

fun scripted :: "error option list \<Rightarrow> error option \<times> error option list" where
  "scripted [] = (None, [])"
| "scripted (r # rs) = (r, rs)"

fun testTranslateError :: "error option \<Rightarrow> error option" where
  "testTranslateError None = None"
| "testTranslateError (Some (DaxRequestFailure codes code)) = Some (DaxRequestFailure codes code)"
| "testTranslateError (Some e) = Some (DaxRequestFailure [0] ''UnknownError'')"

fun testIsRetryable :: "RequestOptions \<Rightarrow> error \<Rightarrow> bool" where
  "testIsRetryable opt (DaxRequestFailure codes code) =
     (take 1 codes = [1] \<or> take 1 codes = [2] \<or> take 4 codes = [4, 23, 31, 33])"
| "testIsRetryable opt e = False"

definition testRetryEnv :: "error option \<Rightarrow> (nat, error option list) retryEnv" where
  "testRetryEnv sleepResult =
     \<lparr>exec = scripted, SleepWithContext = (\<lambda>d s. (sleepResult, s)),
      translateError = testTranslateError, getRoute = (\<lambda>prev s. (Some 0, s)),
      action = (\<lambda>cl opt s. scripted s), isRetryable = testIsRetryable,
      RetryerRetryDelay = (\<lambda>i e. 0), convertDaxError = (\<lambda>e. e)\<rparr>"

definition testTube :: tube where
  "testTube = \<lparr>tubeId = 0, currentAuthID = ''AKID'', authExpiryUnix = 1000\<rparr>"

text \<open>A run in which every step succeeds and the error decoder returns the error \<open>ex\<close>.\<close>

definition serverErrorOutcome :: "error \<Rightarrow> execOutcome" where
  "serverErrorOutcome ex =
     \<lparr>getWithContext = Inr testTube, setDeadline = None, ctxErr = None,
      Retrieve = Inr \<lparr>AccessKeyID = ''AKID'', SessionToken = []\<rparr>, authTime = 500,
      encodeAuthInput = None, authFlush = None, encoder = None, Flush = None,
      decodeError = (Some ex, None), decoder = None, recycleTime = 501\<rparr>"

section \<open>Seed endpoints (cluster.go)\<close>

subsection \<open>The functions of Go's library that the parsing uses\<close>

text \<open>\<open>strings.Index\<close>: the index of the first occurrence of \<open>sub\<close>, or -1.\<close>

fun stringsIndex :: "string \<Rightarrow> string \<Rightarrow> int" where
  "stringsIndex [] sub = (if sub = [] then 0 else - 1)"
| "stringsIndex (c # cs) sub =
     (if take (length sub) (c # cs) = sub then 0
      else (let r = stringsIndex cs sub in if r = - 1 then - 1 else r + 1))"

text \<open>\<open>strings.IndexAny(s, chars) >= 0\<close>.\<close>

definition containsAny :: "string \<Rightarrow> string \<Rightarrow> bool" where
  "containsAny s chars = (\<exists>c \<in> set s. c \<in> set chars)"

text \<open>
  \<open>strconv.ParseInt(s, 10, 64)\<close> and \<open>strconv.Atoi\<close>, which agrees with it where
  \<open>int\<close> has 64 bits: an optional sign, then one or more decimal digits, and a range
  check. The value that Go returns together with an error is not used by the callers and
  is left out.
\<close>

datatype numError = ErrSyntax | ErrRange

definition isDigit :: "char \<Rightarrow> bool" where
  "isDigit c = (c \<in> set ''0123456789'')"

definition digitValue :: "char \<Rightarrow> nat" where
  "digitValue c = of_char c - 48"

fun digitsValue :: "nat \<Rightarrow> string \<Rightarrow> nat" where
  "digitsValue acc [] = acc"
| "digitsValue acc (c # cs) = digitsValue (acc * 10 + digitValue c) cs"

definition ParseUint :: "string \<Rightarrow> numError + nat" where
  "ParseUint s =
     (if s = [] then Inl ErrSyntax
      else if \<not> list_all isDigit s then Inl ErrSyntax
      else if digitsValue 0 s \<ge> 2 ^ 64 then Inl ErrRange
      else Inr (digitsValue 0 s))"

definition ParseInt :: "string \<Rightarrow> numError + int" where
  "ParseInt s =
     (if s = [] then Inl ErrSyntax
      else
        let neg = (hd s = CHR ''-'');
            s1 = (if hd s = CHR ''+'' \<or> hd s = CHR ''-'' then tl s else s)
        in case ParseUint s1 of
             Inl e \<Rightarrow> Inl e
           | Inr un \<Rightarrow>
               if \<not> neg \<and> un \<ge> 2 ^ 63 then Inl ErrRange
               else if neg \<and> un > 2 ^ 63 then Inl ErrRange
               else Inr (if neg then - int un else int un))"

definition Atoi :: "string \<Rightarrow> numError + int" where
  "Atoi s = ParseInt s"

text \<open>\<open>strings.Join\<close>.\<close>

fun stringsJoin :: "string list \<Rightarrow> string \<Rightarrow> string" where
  "stringsJoin [] sep = []"
| "stringsJoin [x] sep = x"
| "stringsJoin (x # y # r) sep = x @ sep @ stringsJoin (y # r) sep"

text \<open>
  \<open>strings.Fields\<close>: the pieces of the string between runs of white space. \<open>cur\<close> is
  the piece being read.
\<close>

definition isSpace :: "char \<Rightarrow> bool" where
  "isSpace c = (of_char c \<in> set [9, 10, 11, 12, 13, 32 :: nat])"

fun fieldsFrom :: "string \<Rightarrow> string \<Rightarrow> string list" where
  "fieldsFrom cur [] = (if cur = [] then [] else [cur])"
| "fieldsFrom cur (c # cs) =
     (if isSpace c then (if cur = [] then fieldsFrom [] cs else cur # fieldsFrom [] cs)
      else fieldsFrom (cur @ [c]) cs)"

definition stringsFields :: "string \<Rightarrow> string list" where
  "stringsFields s = fieldsFrom [] s"

text \<open>
  \<open>fmt.Sprint\<close> of a slice of strings: the elements between brackets, with a space
  between them.
\<close>

definition Sprint :: "string list \<Rightarrow> string" where
  "Sprint xs = ''['' @ stringsJoin xs '' '' @ '']''"

text \<open>
  \<open>fmt.Sprintf(format)\<close> with no operand after the format. A format without \<open>%\<close> is
  returned as it is. In a format with a \<open>%\<close> the verb finds no operand; what
  \<open>Sprintf\<close> prints for it is left to the parameter \<open>verbs\<close>.
\<close>

definition Sprintf :: "(string \<Rightarrow> string) \<Rightarrow> string \<Rightarrow> string" where
  "Sprintf verbs format = (if CHR 0x25 \<in> set format then verbs format else format)"

text \<open>
  What \<open>parseHostPort\<close> reads from the URL that \<open>url.ParseRequestURI\<close> returns:
  \<open>u.Scheme\<close>, \<open>u.Hostname()\<close> and \<open>u.Port()\<close>.
\<close>

record URL =
  Scheme :: string
  Hostname :: string
  Port :: string

text \<open>
  What the parsing takes from Go's library and runtime and the model leaves open: the
  parser \<open>url.ParseRequestURI\<close>, what \<open>fmt.Sprintf\<close> prints for a verb without
  operand, and the order in which \<open>reflect.Value.MapKeys\<close> lists the keys of
  \<open>defaultPorts\<close>, which Go does not fix.
\<close>

record goLibrary =
  ParseRequestURI :: "string \<Rightarrow> error + URL"
  SprintfVerbs :: "string \<Rightarrow> string"
  MapKeys :: "string list"

subsection \<open>parseHostPort and getHostPorts\<close>

definition defaultPorts :: "(string \<times> int) list" where
  "defaultPorts = [(''dax'', 8111), (''daxs'', 9111)]"

definition parseHostPort ::
  "goLibrary \<Rightarrow> string \<Rightarrow> error + (string \<times> int \<times> string)" where
  "parseHostPort G hostPort' =
     (let colon = stringsIndex hostPort' ''://''
      in if colon = - 1 \<and> stringsIndex hostPort' '':'' = - 1
         then Inl (GenericAPIError ErrCodeInvalidParameter
                     (Sprintf (SprintfVerbs G) (hostPort' @ ''Invalid hostport.'')))
         else
           let uriString = (if colon = - 1 then ''dax://'' @ hostPort' else hostPort')
           in case ParseRequestURI G uriString of
                Inl err \<Rightarrow> Inl err
              | Inr u \<Rightarrow>
                  if Hostname u = []
                  then Inl (GenericAPIError ErrCodeInvalidParameter
                              (Sprintf (SprintfVerbs G) ''Invalid hostport''))
                  else
                    let port' = (case Atoi (Port u) of
                                   Inr p \<Rightarrow> p
                                 | Inl e \<Rightarrow>
                                     (case map_of defaultPorts (Scheme u) of
                                        Some p \<Rightarrow> p | None \<Rightarrow> 0))
                    in if map_of defaultPorts (Scheme u) = None
                       then
                         (let schemes = stringsJoin (stringsFields (Sprint (MapKeys G))) '',''
                          in Inl (GenericAPIError ErrCodeInvalidParameter
                                    (Sprintf (SprintfVerbs G)
                                       (''URL scheme must be one of '' @ schemes))))
                       else Inr (Hostname u, port', Scheme u))"

text \<open>
  The loop of \<open>getHostPorts\<close> from index \<open>i\<close>, with the entries of \<open>out\<close> filled so
  far, \<open>hostname\<close> and \<open>isEncrypted\<close>.
\<close>

fun getHostPortsLoop ::
  "goLibrary \<Rightarrow> string list \<Rightarrow> nat \<Rightarrow> hostPort list \<Rightarrow> string \<Rightarrow> bool
     \<Rightarrow> error + (hostPort list \<times> string \<times> bool)" where
  "getHostPortsLoop G [] i out hostname' isEncrypted = Inr (out, hostname', isEncrypted)"
| "getHostPortsLoop G (hp # hosts) i out hostname' isEncrypted =
     (case parseHostPort G hp of
        Inl err \<Rightarrow> Inl err
      | Inr (host', port', scheme) \<Rightarrow>
          if isEncrypted \<noteq> (scheme = ''daxs'') \<and> i \<noteq> 0
          then Inl (GenericAPIError ErrCodeInvalidParameter
                      (Sprintf (SprintfVerbs G)
                         ''Inconsistency between the schemes of provided endpoints''))
          else
            let isEncrypted1 = (if isEncrypted \<noteq> (scheme = ''daxs'') then True else isEncrypted)
            in if scheme = ''daxs'' \<and> i > 0
               then Inl (GenericAPIError ErrCodeInvalidParameter
                           (Sprintf (SprintfVerbs G)
                              ''Only one cluster discovery endpoint may be provided for encrypted cluster''))
               else getHostPortsLoop G hosts (i + 1) (out @ [HostPort host' port']) host'
                      isEncrypted1)"

definition getHostPorts ::
  "goLibrary \<Rightarrow> string list \<Rightarrow> error + (hostPort list \<times> string \<times> bool)" where
  "getHostPorts G hosts = getHostPortsLoop G hosts 0 [] [] False"

text \<open>
  A URL parser for the seeds of the test suite, \<open>scheme://host\<close> and
  \<open>scheme://host:port\<close>: the scheme is what stands before \<open>://\<close>, the port what
  follows the first colon after it. The seeds it is used on have no \<open>%\<close>, so that the
  stand-in for the verbs of \<open>Sprintf\<close> is never consulted; the keys are listed in one of
  their two orders.
\<close>

definition testParseRequestURI :: "string \<Rightarrow> error + URL" where
  "testParseRequestURI s =
     (let i = stringsIndex s ''://''
      in if i \<le> 0 then Inl (PlainError ''invalid URI for request'')
         else
           let rest = drop (nat i + 3) s;
               j = stringsIndex rest '':''
           in if j = - 1 then Inr \<lparr>Scheme = take (nat i) s, Hostname = rest, Port = []\<rparr>
              else Inr \<lparr>Scheme = take (nat i) s, Hostname = take (nat j) rest,
                         Port = drop (nat j + 1) rest\<rparr>)"

definition testLibrary :: goLibrary where
  "testLibrary =
     \<lparr>ParseRequestURI = testParseRequestURI, SprintfVerbs = (\<lambda>format. []),
      MapKeys = [''daxs'', ''dax'']\<rparr>"

section \<open>The attribute value codec (package cbor)\<close>

type_synonym byte = "8 word"

text \<open>
  \<open>types.AttributeValue\<close>: the interface with its ten member types, and the nil
  interface value. A Go string is a sequence of bytes, here a \<open>string\<close>; \<open>[]byte\<close> is
  a list of bytes. The map of \<open>M\<close> is an association list with distinct keys, whose order
  stands for the order in which a \<open>range\<close> over the map visits it.
\<close>

datatype AttributeValue =
    AttributeValueNil
  | MemberS string
  | MemberN string
  | MemberB "byte list"
  | MemberSS "string list"
  | MemberNS "string list"
  | MemberBS "byte list list"
  | MemberL "AttributeValue list"
  | MemberM "(string \<times> AttributeValue) list"
  | MemberBOOL bool
  | MemberNULL bool

subsection \<open>Numbers\<close>

text \<open>
  An arbitrary-precision decimal, the number \<open>unscaled * 10 ^ exponent\<close>. The type
  \<open>Decimal\<close> of the package is not among the sources: its parser \<open>SetString\<close> and its
  printer \<open>String\<close> are parameters of the model. So is the value that a \<open>big.Int\<close>
  holds after a failed \<open>SetString\<close>, which Go's documentation leaves undefined.
\<close>

datatype Decimal = Decimal (unscaled: int) (exponent: int)

record numberOps =
  decSetString :: "string \<Rightarrow> Decimal option"
  decString :: "Decimal \<Rightarrow> string"
  bigFailedValue :: "string \<Rightarrow> int"

text \<open>
  \<open>big.Int.SetString(s, 10)\<close>: an optional sign and one or more decimal digits.
\<close>

definition bigSetString :: "string \<Rightarrow> int option" where
  "bigSetString s =
     (if s = [] then None
      else
        let neg = (hd s = CHR ''-'');
            s1 = (if hd s = CHR ''+'' \<or> hd s = CHR ''-'' then tl s else s)
        in if s1 = [] \<or> \<not> list_all isDigit s1 then None
           else Some (if neg then - int (digitsValue 0 s1) else int (digitsValue 0 s1)))"

subsection \<open>Bytes\<close>

definition byteOfChar :: "char \<Rightarrow> byte" where
  "byteOfChar c = of_char c"

definition charOfByte :: "byte \<Rightarrow> char" where
  "charOfByte b = char_of (unat b)"

text \<open>A number in \<open>k\<close> bytes, big-endian, and back.\<close>

fun beBytes :: "nat \<Rightarrow> nat \<Rightarrow> byte list" where
  "beBytes 0 v = []"
| "beBytes (Suc k) v = beBytes k (v div 256) @ [of_nat (v mod 256)]"

definition beValue :: "byte list \<Rightarrow> nat" where
  "beValue bs = foldl (\<lambda>acc b. acc * 256 + unat b) 0 bs"

text \<open>\<open>big.Int.Bytes\<close>: the magnitude in as few bytes as it takes, none for 0.\<close>

fun natBytes :: "nat \<Rightarrow> byte list" where
  "natBytes n = (if n = 0 then [] else natBytes (n div 256) @ [of_nat (n mod 256)])"

declare natBytes.simps [simp del]

subsection \<open>The wire format\<close>

text \<open>
  Modelled from the spec: the constants of the package, as the tests use them (\<open>cbor.Array + 3\<close>, \<open>cbor.Nil\<close>,
  \<open>hdr & MajorTypeMask\<close>): the major type is the top three bits of the header byte.
\<close>

definition PosInt :: byte where "PosInt = 0x00"
definition NegInt :: byte where "NegInt = 0x20"
definition Bytes :: byte where "Bytes = 0x40"
definition Utf :: byte where "Utf = 0x60"
definition Array :: byte where "Array = 0x80"
definition Map' :: byte where "Map' = 0xA0"
definition Tag :: byte where "Tag = 0xC0"
definition Simple :: byte where "Simple = 0xE0"

definition MajorTypeMask :: byte where "MajorTypeMask = 0xE0"
definition MinorTypeMask :: byte where "MinorTypeMask = 0x1F"

definition False' :: byte where "False' = 0xF4"
definition True' :: byte where "True' = 0xF5"
definition Nil' :: byte where "Nil' = 0xF6"

definition TagPosBigInt :: byte where "TagPosBigInt = 2"
definition TagNegBigInt :: byte where "TagNegBigInt = 3"
definition TagDecimal :: byte where "TagDecimal = 4"

definition tagStringSet :: nat where "tagStringSet = 3321"
definition tagNumberSet :: nat where "tagNumberSet = 3322"
definition tagBinarySet :: nat where "tagBinarySet = 3323"

subsection \<open>The writer\<close>

text \<open>
  Modelled from the spec: the \<open>Writer\<close> of the package (writer.go is not among the
  sources). The spec names the format: a self-describing binary form with the major
  types positive integer, negative integer, byte string, text string, array, map, tag and
  simple, a length header, the standard tags for positive and negative big integers and
  for decimals, and simple values for true, false and nil. The functions below write
  that format into a buffer in memory, so they return the bytes and never fail. The
  header holds a value below 24 in the byte itself and a larger one in the 1, 2, 4 or 8
  bytes that follow; the value is a \<open>uint64\<close>.
\<close>

definition writeType :: "byte \<Rightarrow> nat \<Rightarrow> byte list" where
  "writeType major v =
     (if v < 24 then [major OR of_nat v]
      else if v < 2 ^ 8 then (major OR 24) # beBytes 1 v
      else if v < 2 ^ 16 then (major OR 25) # beBytes 2 v
      else if v < 2 ^ 32 then (major OR 26) # beBytes 4 v
      else (major OR 27) # beBytes 8 v)"

text \<open>Modelled from the spec: a text string goes out as its length under the text-string type and its bytes.\<close>

definition WriteString :: "string \<Rightarrow> byte list" where
  "WriteString s = writeType Utf (length s) @ map byteOfChar s"

text \<open>Modelled from the spec: a byte string goes out as its length under the byte-string type and its bytes.\<close>

definition WriteBytes :: "byte list \<Rightarrow> byte list" where
  "WriteBytes b = writeType Bytes (length b) @ b"

text \<open>Modelled from the spec: the header of an array of \<open>n\<close> items.\<close>

definition WriteArrayHeader :: "nat \<Rightarrow> byte list" where
  "WriteArrayHeader n = writeType Array n"

text \<open>Modelled from the spec: the header of a map of \<open>n\<close> entries.\<close>

definition WriteMapHeader :: "nat \<Rightarrow> byte list" where
  "WriteMapHeader n = writeType Map' n"

text \<open>Modelled from the spec: the simple values for true and false.\<close>

definition WriteBoolean :: "bool \<Rightarrow> byte list" where
  "WriteBoolean b = (if b then [True'] else [False'])"

text \<open>Modelled from the spec: the simple value for nil.\<close>

definition WriteNull :: "byte list" where
  "WriteNull = [Nil']"

text \<open>Modelled from the spec: an \<open>int64\<close> goes out as a positive or negative integer.\<close>

definition WriteInt64 :: "int \<Rightarrow> byte list" where
  "WriteInt64 i = (if i \<ge> 0 then writeType PosInt (nat i) else writeType NegInt (nat (- 1 - i)))"

text \<open>
  Modelled from the spec: a big integer goes out under the positive or the negative
  big-integer tag, followed by the bytes of \<open>n\<close>, or of \<open>-1 - n\<close> for a negative \<open>n\<close>.
\<close>

definition WriteBigInt :: "int \<Rightarrow> byte list" where
  "WriteBigInt i =
     (if i \<ge> 0 then (Tag OR TagPosBigInt) # WriteBytes (natBytes (nat i))
      else (Tag OR TagNegBigInt) # WriteBytes (natBytes (nat (- 1 - i))))"

text \<open>
  Modelled from the spec: a decimal goes out under the decimal tag, as the array of its
  exponent and its unscaled value.
\<close>

definition WriteDecimal :: "Decimal \<Rightarrow> byte list" where
  "WriteDecimal d =
     (Tag OR TagDecimal) # WriteArrayHeader 2 @ WriteInt64 (exponent d) @ WriteBigInt (unscaled d)"

subsection \<open>The reader\<close>

text \<open>
  Modelled from the spec: the \<open>Reader\<close> of the package (reader.go is not among the
  sources), reading the format above from the bytes that are left; each function returns
  what it read and the rest of the input. Integers of both signs are printed as decimal
  strings of any size.
\<close>

definition PeekHeader :: "byte list \<Rightarrow> error + byte" where
  "PeekHeader bs = (case bs of [] \<Rightarrow> Inl EOF | hdr # rest \<Rightarrow> Inr hdr)"

text \<open>Modelled from the spec: the header byte and the value it holds or that follows it.\<close>

definition readTypeHeader :: "byte list \<Rightarrow> error + (byte \<times> nat \<times> byte list)" where
  "readTypeHeader bs =
     (case bs of
        [] \<Rightarrow> Inl EOF
      | hdr # rest \<Rightarrow>
          let major = hdr AND MajorTypeMask;
              minor = hdr AND MinorTypeMask
          in if minor < 24 then Inr (major, unat minor, rest)
             else if minor \<le> 27 then
               (let k = 2 ^ (unat minor - 24)
                in if length rest < k then Inl ErrUnexpectedEOF
                   else Inr (major, beValue (take k rest), drop k rest))
             else Inl (DeserializationError ''cbor: invalid header''))"

text \<open>Modelled from the spec: a header of the expected major type and the bytes it announces.\<close>

definition readBody ::
  "byte \<Rightarrow> byte list \<Rightarrow> error + (byte list \<times> byte list)" where
  "readBody expected bs =
     (case readTypeHeader bs of
        Inl err \<Rightarrow> Inl err
      | Inr (major, n, rest) \<Rightarrow>
          if major \<noteq> expected then Inl (DeserializationError ''cbor: unexpected major type'')
          else if length rest < n then Inl ErrUnexpectedEOF
          else Inr (take n rest, drop n rest))"

text \<open>Modelled from the spec: a text string.\<close>

definition ReadString :: "byte list \<Rightarrow> error + (string \<times> byte list)" where
  "ReadString bs =
     (case readBody Utf bs of Inl err \<Rightarrow> Inl err | Inr (b, rest) \<Rightarrow> Inr (map charOfByte b, rest))"

text \<open>Modelled from the spec: a byte string.\<close>

definition ReadBytes :: "byte list \<Rightarrow> error + (byte list \<times> byte list)" where
  "ReadBytes bs = readBody Bytes bs"

text \<open>Modelled from the spec: the value of a header of the expected major type.\<close>

definition readLength :: "byte \<Rightarrow> byte list \<Rightarrow> error + (nat \<times> byte list)" where
  "readLength expected bs =
     (case readTypeHeader bs of
        Inl err \<Rightarrow> Inl err
      | Inr (major, n, rest) \<Rightarrow>
          if major \<noteq> expected then Inl (DeserializationError ''cbor: unexpected major type'')
          else Inr (n, rest))"

text \<open>Modelled from the spec: the number of items of an array.\<close>

definition ReadArrayLength :: "byte list \<Rightarrow> error + (nat \<times> byte list)" where
  "ReadArrayLength bs = readLength Array bs"

text \<open>Modelled from the spec: the number of entries of a map.\<close>

definition ReadMapLength :: "byte list \<Rightarrow> error + (nat \<times> byte list)" where
  "ReadMapLength bs = readLength Map' bs"

text \<open>Modelled from the spec: a positive or negative integer.\<close>

definition ReadInt :: "byte list \<Rightarrow> error + (int \<times> byte list)" where
  "ReadInt bs =
     (case readTypeHeader bs of
        Inl err \<Rightarrow> Inl err
      | Inr (major, n, rest) \<Rightarrow>
          if major = PosInt then Inr (int n, rest)
          else if major = NegInt then Inr (- 1 - int n, rest)
          else Inl (DeserializationError ''cbor: unexpected major type''))"

text \<open>Modelled from the spec: a positive or negative integer, printed in decimal.\<close>

definition ReadCborIntegerToString :: "byte list \<Rightarrow> error + (string \<times> byte list)" where
  "ReadCborIntegerToString bs =
     (case ReadInt bs of Inl err \<Rightarrow> Inl err | Inr (i, rest) \<Rightarrow> Inr (showInt i, rest))"

text \<open>Modelled from the spec: a big integer under the positive or negative big-integer tag.\<close>

definition ReadBigInt :: "byte list \<Rightarrow> error + (int \<times> byte list)" where
  "ReadBigInt bs =
     (case readTypeHeader bs of
        Inl err \<Rightarrow> Inl err
      | Inr (major, tag, rest) \<Rightarrow>
          if major = Tag \<and> (tag = 2 \<or> tag = 3) then
            (case ReadBytes rest of
               Inl err \<Rightarrow> Inl err
             | Inr (b, rest1) \<Rightarrow>
                 Inr (if tag = 2 then int (beValue b) else - 1 - int (beValue b), rest1))
          else Inl (DeserializationError ''cbor: unexpected major type''))"

text \<open>Modelled from the spec: a decimal: the decimal tag, then the array of exponent and unscaled value.\<close>

definition ReadDecimal :: "byte list \<Rightarrow> error + (Decimal \<times> byte list)" where
  "ReadDecimal bs =
     (case readTypeHeader bs of
        Inl err \<Rightarrow> Inl err
      | Inr (major, tag, rest) \<Rightarrow>
          if major = Tag \<and> tag = 4 then
            (case ReadArrayLength rest of
               Inl err \<Rightarrow> Inl err
             | Inr (n, rest1) \<Rightarrow>
                 if n \<noteq> 2 then Inl (DeserializationError ''cbor: invalid decimal'')
                 else
                   (case ReadInt rest1 of
                      Inl err \<Rightarrow> Inl err
                    | Inr (e, rest2) \<Rightarrow>
                        (case ReadBigInt rest2 of
                           Inl err \<Rightarrow> Inl err
                         | Inr (u, rest3) \<Rightarrow> Inr (Decimal u e, rest3))))
          else Inl (DeserializationError ''cbor: unexpected major type''))"

subsection \<open>Encoding an attribute value (attrval.go)\<close>

definition writeStringNumber :: "numberOps \<Rightarrow> string \<Rightarrow> error + byte list" where
  "writeStringNumber D val =
     (if containsAny val ''.eE'' then
        (case decSetString D val of
           None \<Rightarrow> Inl (SerializationError (''invalid number '' @ val))
         | Some dec \<Rightarrow> Inr (WriteDecimal dec))
      else if length val > 18 then
        Inr (WriteBigInt (case bigSetString val of Some b \<Rightarrow> b | None \<Rightarrow> bigFailedValue D val))
      else
        (case ParseInt val of
           Inl err \<Rightarrow> Inl (SerializationError (''invalid number '' @ val))
         | Inr i \<Rightarrow> Inr (WriteInt64 i)))"

text \<open>The loop over the members of a number set.\<close>

fun writeStringNumbers :: "numberOps \<Rightarrow> string list \<Rightarrow> error + byte list" where
  "writeStringNumbers D [] = Inr []"
| "writeStringNumbers D (sp # sps) =
     (case writeStringNumber D sp of
        Inl err \<Rightarrow> Inl err
      | Inr b \<Rightarrow>
          (case writeStringNumbers D sps of Inl err \<Rightarrow> Inl err | Inr bs \<Rightarrow> Inr (b @ bs)))"

text \<open>
  \<open>EncodeAttributeValue\<close> with its loops over the members of a list
  (\<open>encodeValues\<close>) and the entries of a map (\<open>encodeEntries\<close>). The result is the
  error, or the bytes written to the buffer.
\<close>

fun EncodeAttributeValue :: "numberOps \<Rightarrow> AttributeValue \<Rightarrow> error + byte list"
  and encodeValues :: "numberOps \<Rightarrow> AttributeValue list \<Rightarrow> error + byte list"
  and encodeEntries :: "numberOps \<Rightarrow> (string \<times> AttributeValue) list \<Rightarrow> error + byte list"
where
  "EncodeAttributeValue D AttributeValueNil =
     Inl (SerializationError ''invalid attribute value: nil'')"
| "EncodeAttributeValue D (MemberS v) = Inr (WriteString v)"
| "EncodeAttributeValue D (MemberN v) = writeStringNumber D v"
| "EncodeAttributeValue D (MemberB v) = Inr (WriteBytes v)"
| "EncodeAttributeValue D (MemberSS v) =
     (if length v = 0 then Inl (SerializationError ''invalid string set: nil or empty'')
      else Inr (writeType Tag tagStringSet @ WriteArrayHeader (length v)
                  @ concat (map WriteString v)))"
| "EncodeAttributeValue D (MemberNS v) =
     (if length v = 0 then Inl (SerializationError ''invalid number set: nil or empty'')
      else
        (case writeStringNumbers D v of
           Inl err \<Rightarrow> Inl err
         | Inr bs \<Rightarrow> Inr (writeType Tag tagNumberSet @ WriteArrayHeader (length v) @ bs)))"
| "EncodeAttributeValue D (MemberBS v) =
     (if length v = 0 then Inl (SerializationError ''invalid binary set: nil or empty'')
      else Inr (writeType Tag tagBinarySet @ WriteArrayHeader (length v)
                  @ concat (map WriteBytes v)))"
| "EncodeAttributeValue D (MemberL v) =
     (case encodeValues D v of
        Inl err \<Rightarrow> Inl err
      | Inr bs \<Rightarrow> Inr (WriteArrayHeader (length v) @ bs))"
| "EncodeAttributeValue D (MemberM v) =
     (case encodeEntries D v of
        Inl err \<Rightarrow> Inl err
      | Inr bs \<Rightarrow> Inr (WriteMapHeader (length v) @ bs))"
| "EncodeAttributeValue D (MemberBOOL v) = Inr (WriteBoolean v)"
| "EncodeAttributeValue D (MemberNULL v) =
     (if \<not> v then Inl (SerializationError ''invalid null attribute value'')
      else Inr WriteNull)"
| "encodeValues D [] = Inr []"
| "encodeValues D (v # vs) =
     (case EncodeAttributeValue D v of
        Inl err \<Rightarrow> Inl err
      | Inr b \<Rightarrow> (case encodeValues D vs of Inl err \<Rightarrow> Inl err | Inr bs \<Rightarrow> Inr (b @ bs)))"
| "encodeEntries D [] = Inr []"
| "encodeEntries D ((k, v) # kvs) =
     (case EncodeAttributeValue D v of
        Inl err \<Rightarrow> Inl err
      | Inr b \<Rightarrow>
          (case encodeEntries D kvs of
             Inl err \<Rightarrow> Inl err
           | Inr bs \<Rightarrow> Inr (WriteString k @ b @ bs)))"

subsection \<open>Decoding an attribute value (attrval.go)\<close>

text \<open>The loops that read the members of a string set and of a binary set.\<close>

fun readStrings :: "nat \<Rightarrow> byte list \<Rightarrow> error + (string list \<times> byte list)" where
  "readStrings 0 bs = Inr ([], bs)"
| "readStrings (Suc n) bs =
     (case ReadString bs of
        Inl err \<Rightarrow> Inl err
      | Inr (s, rest) \<Rightarrow>
          (case readStrings n rest of
             Inl err \<Rightarrow> Inl err
           | Inr (ss, rest1) \<Rightarrow> Inr (s # ss, rest1)))"

fun readByteStrings :: "nat \<Rightarrow> byte list \<Rightarrow> error + (byte list list \<times> byte list)" where
  "readByteStrings 0 bs = Inr ([], bs)"
| "readByteStrings (Suc n) bs =
     (case ReadBytes bs of
        Inl err \<Rightarrow> Inl err
      | Inr (b, rest) \<Rightarrow>
          (case readByteStrings n rest of
             Inl err \<Rightarrow> Inl err
           | Inr (bs1, rest1) \<Rightarrow> Inr (b # bs1, rest1)))"

text \<open>
  \<open>DecodeAttributeValue\<close> calls itself for the members of a list, of a map and of a
  number set. The first argument after the parameters bounds the depth of these calls:
  at depth 0 the model gives up with \<open>OutOfDepth\<close>. \<open>decodeValues\<close>,
  \<open>decodeEntries\<close> (with the map filled so far) and \<open>decodeNumbers\<close> are the three
  loops, each over the number of members still to read.
\<close>

definition OutOfDepth :: error where
  "OutOfDepth = PlainError ''decoding depth exhausted''"

function DecodeAttributeValueF ::
    "numberOps \<Rightarrow> nat \<Rightarrow> byte list \<Rightarrow> error + (AttributeValue \<times> byte list)"
  and decodeValues ::
    "numberOps \<Rightarrow> nat \<Rightarrow> nat \<Rightarrow> byte list \<Rightarrow> error + (AttributeValue list \<times> byte list)"
  and decodeEntries ::
    "numberOps \<Rightarrow> nat \<Rightarrow> nat \<Rightarrow> (string \<times> AttributeValue) list \<Rightarrow> byte list
       \<Rightarrow> error + ((string \<times> AttributeValue) list \<times> byte list)"
  and decodeNumbers ::
    "numberOps \<Rightarrow> nat \<Rightarrow> nat \<Rightarrow> byte list \<Rightarrow> error + (string list \<times> byte list)"
where
  "DecodeAttributeValueF D 0 bs = Inl OutOfDepth"
| "DecodeAttributeValueF D (Suc f) bs =
     (case PeekHeader bs of
        Inl err \<Rightarrow> Inl err
      | Inr hdr \<Rightarrow>
          let major = hdr AND MajorTypeMask;
              minor = hdr AND MinorTypeMask
          in if major = Utf then
               (case ReadString bs of
                  Inl err \<Rightarrow> Inl err
                | Inr (s, rest) \<Rightarrow> Inr (MemberS s, rest))
             else if major = Bytes then
               (case ReadBytes bs of
                  Inl err \<Rightarrow> Inl err
                | Inr (b, rest) \<Rightarrow> Inr (MemberB b, rest))
             else if major = Array then
               (case ReadArrayLength bs of
                  Inl err \<Rightarrow> Inl err
                | Inr (len, rest) \<Rightarrow>
                    (case decodeValues D f len rest of
                       Inl err \<Rightarrow> Inl err
                     | Inr (as, rest1) \<Rightarrow> Inr (MemberL as, rest1)))
             else if major = Map' then
               (case ReadMapLength bs of
                  Inl err \<Rightarrow> Inl err
                | Inr (len, rest) \<Rightarrow>
                    (case decodeEntries D f len [] rest of
                       Inl err \<Rightarrow> Inl err
                     | Inr (m, rest1) \<Rightarrow> Inr (MemberM m, rest1)))
             else if major = PosInt \<or> major = NegInt then
               (case ReadCborIntegerToString bs of
                  Inl err \<Rightarrow> Inl err
                | Inr (s, rest) \<Rightarrow> Inr (MemberN s, rest))
             else if major = Simple then
               (case readTypeHeader bs of
                  Inl err \<Rightarrow> Inl err
                | Inr (major1, v, rest) \<Rightarrow>
                    if hdr = False' then Inr (MemberBOOL False, rest)
                    else if hdr = True' then Inr (MemberBOOL True, rest)
                    else if hdr = Nil' then Inr (MemberNULL True, rest)
                    else Inl (DeserializationError
                                (''unknown minor type '' @ showNat (unat minor)
                                   @ '' for simple major type'')))
             else if major = Tag then
               (if minor = TagPosBigInt \<or> minor = TagNegBigInt then
                  (case ReadBigInt bs of
                     Inl err \<Rightarrow> Inl err
                   | Inr (i, rest) \<Rightarrow> Inr (MemberN (showInt i), rest))
                else if minor = TagDecimal then
                  (case ReadDecimal bs of
                     Inl err \<Rightarrow> Inl err
                   | Inr (d, rest) \<Rightarrow> Inr (MemberN (decString D d), rest))
                else
                  (case readTypeHeader bs of
                     Inl err \<Rightarrow> Inl err
                   | Inr (major1, tag, rest) \<Rightarrow>
                       if tag = tagStringSet then
                         (case ReadArrayLength rest of
                            Inl err \<Rightarrow> Inl err
                          | Inr (len, rest1) \<Rightarrow>
                              (case readStrings len rest1 of
                                 Inl err \<Rightarrow> Inl err
                               | Inr (ss, rest2) \<Rightarrow> Inr (MemberSS ss, rest2)))
                       else if tag = tagNumberSet then
                         (case ReadArrayLength rest of
                            Inl err \<Rightarrow> Inl err
                          | Inr (len, rest1) \<Rightarrow>
                              (case decodeNumbers D f len rest1 of
                                 Inl err \<Rightarrow> Inl err
                               | Inr (ss, rest2) \<Rightarrow> Inr (MemberNS ss, rest2)))
                       else if tag = tagBinarySet then
                         (case ReadArrayLength rest of
                            Inl err \<Rightarrow> Inl err
                          | Inr (len, rest1) \<Rightarrow>
                              (case readByteStrings len rest1 of
                                 Inl err \<Rightarrow> Inl err
                               | Inr (bs1, rest2) \<Rightarrow> Inr (MemberBS bs1, rest2)))
                       else Inl (DeserializationError
                                   (''unknown minor type '' @ showNat (unat minor)
                                      @ '' or tag '' @ showNat tag))))
             else Inl (DeserializationError (''unknown major type '' @ showNat (unat major))))"
| "decodeValues D f 0 bs = Inr ([], bs)"
| "decodeValues D f (Suc n) bs =
     (case DecodeAttributeValueF D f bs of
        Inl err \<Rightarrow> Inl err
      | Inr (a, rest) \<Rightarrow>
          (case decodeValues D f n rest of
             Inl err \<Rightarrow> Inl err
           | Inr (as, rest1) \<Rightarrow> Inr (a # as, rest1)))"
| "decodeEntries D f 0 m bs = Inr (m, bs)"
| "decodeEntries D f (Suc n) m bs =
     (case ReadString bs of
        Inl err \<Rightarrow> Inl err
      | Inr (k, rest) \<Rightarrow>
          (case DecodeAttributeValueF D f rest of
             Inl err \<Rightarrow> Inl err
           | Inr (v, rest1) \<Rightarrow> decodeEntries D f n (AList.update k v m) rest1))"
| "decodeNumbers D f 0 bs = Inr ([], bs)"
| "decodeNumbers D f (Suc n) bs =
     (case DecodeAttributeValueF D f bs of
        Inl err \<Rightarrow> Inl err
      | Inr (MemberN s, rest) \<Rightarrow>
          (case decodeNumbers D f n rest of
             Inl err \<Rightarrow> Inl err
           | Inr (ss, rest1) \<Rightarrow> Inr (s # ss, rest1))
      | Inr (av, rest) \<Rightarrow> Inl (DeserializationError ''attribute type is not number''))"
  by pat_completeness auto
termination
  by (relation "measures [
        (\<lambda>x. case x of
           Inl (Inl (D, f, bs)) \<Rightarrow> f
         | Inl (Inr (D, f, n, bs)) \<Rightarrow> f
         | Inr (Inl (D, f, n, m, bs)) \<Rightarrow> f
         | Inr (Inr (D, f, n, bs)) \<Rightarrow> f),
        (\<lambda>x. case x of
           Inl (Inl (D, f, bs)) \<Rightarrow> 0
         | Inl (Inr (D, f, n, bs)) \<Rightarrow> Suc n
         | Inr (Inl (D, f, n, m, bs)) \<Rightarrow> Suc n
         | Inr (Inr (D, f, n, bs)) \<Rightarrow> Suc n)]")
     auto

text \<open>
  \<open>DecodeAttributeValue\<close> on a reader that holds the bytes \<open>bs\<close>. Every nested call
  has read at least one byte first, so a depth above the length of the input is never
  used up.
\<close>

definition DecodeAttributeValue ::
  "numberOps \<Rightarrow> byte list \<Rightarrow> error + (AttributeValue \<times> byte list)" where
  "DecodeAttributeValue D bs = DecodeAttributeValueF D (Suc (length bs)) bs"

subsection \<open>An instance of the number parameters\<close>

text \<open>
  The test of the codec encodes and decodes \<open>N("314E-2")\<close> and \<open>N("-314E-2")\<close> and
  gets them back, and notes that \<open>N("3.14")\<close> comes back as \<open>314E-2\<close>.
  \<open>testNumberOps\<close> is an instance of the parameters that does so: the parser reads
  digits with an optional sign, fraction and exponent, the printer writes the unscaled
  value, \<open>E\<close> and the exponent, and a \<open>big.Int\<close> whose \<open>SetString\<close> failed holds the
  digits read up to the failure.
\<close>

definition testDecSetString :: "string \<Rightarrow> Decimal option" where
  "testDecSetString s =
     (let neg = (s \<noteq> [] \<and> hd s = CHR ''-'');
          s1 = (if s \<noteq> [] \<and> (hd s = CHR ''+'' \<or> hd s = CHR ''-'') then tl s else s);
          ip = takeWhile isDigit s1;
          r1 = dropWhile isDigit s1;
          fp = (if r1 \<noteq> [] \<and> hd r1 = CHR ''.'' then takeWhile isDigit (tl r1) else []);
          r2 = (if r1 \<noteq> [] \<and> hd r1 = CHR ''.'' then dropWhile isDigit (tl r1) else r1);
          ex = (if r2 = [] then Inr 0
                else if hd r2 = CHR ''e'' \<or> hd r2 = CHR ''E'' then ParseInt (tl r2)
                else Inl ErrSyntax)
      in if ip @ fp = [] then None
         else
           (case ex of
              Inl err \<Rightarrow> None
            | Inr e \<Rightarrow>
                Some (Decimal (if neg then - int (digitsValue 0 (ip @ fp))
                               else int (digitsValue 0 (ip @ fp)))
                              (e - int (length fp)))))"

definition testDecString :: "Decimal \<Rightarrow> string" where
  "testDecString d = showInt (unscaled d) @ ''E'' @ showInt (exponent d)"

definition testBigFailedValue :: "string \<Rightarrow> int" where
  "testBigFailedValue s =
     (let neg = (s \<noteq> [] \<and> hd s = CHR ''-'');
          s1 = (if s \<noteq> [] \<and> (hd s = CHR ''+'' \<or> hd s = CHR ''-'') then tl s else s);
          v = int (digitsValue 0 (takeWhile isDigit s1))
      in if neg then - v else v)"

definition testNumberOps :: numberOps where
  "testNumberOps = \<lparr>decSetString = testDecSetString, decString = testDecString,
     bigFailedValue = testBigFailedValue\<rparr>"

subsection \<open>Values that come back unchanged\<close>

text \<open>
  A number string is in the decoder's form when decoding prints it as it is: for an
  integer, the string that \<open>showInt\<close> prints for its value (digits with an optional
  \<open>-\<close>, no \<open>+\<close>, no leading zero, not \<open>-0\<close>); for a number written with \<open>.\<close>,
  \<open>e\<close> or \<open>E\<close>, the string that the decimal printer prints for the value that the
  decimal parser reads, with an exponent that fits an \<open>int64\<close> and an unscaled value
  of no more digits than the string is long.
\<close>

definition canonicalNumber :: "numberOps \<Rightarrow> string \<Rightarrow> bool" where
  "canonicalNumber D s =
     (length s < 2 ^ 63 \<and>
      (if containsAny s ''.eE'' then
         (case decSetString D s of
            None \<Rightarrow> False
          | Some d \<Rightarrow>
              decString D d = s \<and> - (2 ^ 63) \<le> exponent d \<and> exponent d < 2 ^ 63
              \<and> \<bar>unscaled d\<bar> < 10 ^ length s)
       else
         (case bigSetString s of
            None \<Rightarrow> False
          | Some i \<Rightarrow> showInt i = s)))"

text \<open>
  The attribute values of the round trip: no nil value, no empty set, no \<open>NULL\<close> with
  \<open>false\<close>, every number string in the decoder's form, the keys of a map distinct, and
  every length below \<open>2 ^ 63\<close>, as the length of a Go string, slice or map is.
\<close>

fun wfAttributeValue :: "numberOps \<Rightarrow> AttributeValue \<Rightarrow> bool" where
  "wfAttributeValue D AttributeValueNil = False"
| "wfAttributeValue D (MemberS v) = (length v < 2 ^ 63)"
| "wfAttributeValue D (MemberN v) = canonicalNumber D v"
| "wfAttributeValue D (MemberB v) = (length v < 2 ^ 63)"
| "wfAttributeValue D (MemberSS v) =
     (v \<noteq> [] \<and> length v < 2 ^ 63 \<and> list_all (\<lambda>s. length s < 2 ^ 63) v)"
| "wfAttributeValue D (MemberNS v) =
     (v \<noteq> [] \<and> length v < 2 ^ 63 \<and> list_all (canonicalNumber D) v)"
| "wfAttributeValue D (MemberBS v) =
     (v \<noteq> [] \<and> length v < 2 ^ 63 \<and> list_all (\<lambda>b. length b < 2 ^ 63) v)"
| "wfAttributeValue D (MemberL v) = (length v < 2 ^ 63 \<and> list_all (wfAttributeValue D) v)"
| "wfAttributeValue D (MemberM v) =
     (length v < 2 ^ 63 \<and> distinct (map fst v)
      \<and> list_all (\<lambda>kv. length (fst kv) < 2 ^ 63 \<and> wfAttributeValue D (snd kv)) v)"
| "wfAttributeValue D (MemberBOOL v) = True"
| "wfAttributeValue D (MemberNULL v) = v"

text \<open>A header byte with no minor bits: a major type.\<close>

definition isMajor :: "byte \<Rightarrow> bool" where
  "isMajor m = (m AND 0x1F = 0)"

text \<open>
  The statement proved for every attribute value: it is encoded, and the bytes decode to
  it at every depth above their number, whatever follows them.
\<close>

definition roundtrips :: "numberOps \<Rightarrow> AttributeValue \<Rightarrow> bool" where
  "roundtrips D a =
     (\<exists>bs. EncodeAttributeValue D a = Inr bs \<and> bs \<noteq> []
        \<and> (\<forall>f rest. length bs < f \<longrightarrow> DecodeAttributeValueF D f (bs @ rest) = Inr (a, rest)))"
section \<open>Properties of the health status\<close>

lemmas hs_defs = onErrorInReadRequest_rlock_def onErrorInReadRequest_lock_def
  onSuccessInReadRequest_rlock_def onSuccessInReadRequest_lock_def
  onHealthCheckSuccess_rlock_def onHealthCheckSuccess_lock_def timeoutErrorThreshold_def Let_def

text \<open>
  A call on its own does what the description of the callbacks says.
  \<open>onErrorInReadRequest\<close> adds one to the count exactly when the error is an I/O error
  and the route is healthy; when the count has reached 5 it sets \<open>isHealthy\<close> to false
  and calls \<open>removeRoute\<close> once; \<open>onSuccessInReadRequest\<close> sets the count to 0 exactly
  when the route is healthy and the count is not 0.
\<close>

lemma callAlone_error:
  "callAlone isIOError hs (OnErrorInReadRequest err route) =
     (if isIOError err \<and> isHealthy hs then
        (if curReadTimeoutCount hs + 1 \<ge> 5
         then (hs\<lparr>curReadTimeoutCount := curReadTimeoutCount hs + 1, isHealthy := False\<rparr>,
               [RemoveRoute (endpoint hs) route])
         else (hs\<lparr>curReadTimeoutCount := curReadTimeoutCount hs + 1\<rparr>, []))
      else (hs, []))"
  by (simp add: callAlone_def hs_defs)

lemma callAlone_success:
  "callAlone isIOError hs OnSuccessInReadRequest =
     (if isHealthy hs \<and> curReadTimeoutCount hs \<noteq> 0 then (hs\<lparr>curReadTimeoutCount := 0\<rparr>, [])
      else (hs, []))"
  by (simp add: callAlone_def hs_defs)

lemma callAlone_steps:
  assumes "k < length (goroutines w)" "goroutines w ! k = Entry c"
  shows "hsRun isIOError w [k, k] =
           w\<lparr>status := fst (callAlone isIOError (status w) c),
              listener := listener w @ snd (callAlone isIOError (status w) c),
              goroutines := (goroutines w)[k := Returned]\<rparr>"
  using assms
  by (cases "lockSection (status w) c")
     (simp add: hsRun_def hsStep_def callAlone_def)

lemma hsInv_callAlone: "hsInv hs \<Longrightarrow> hsInv (fst (callAlone isIOError hs c))"
  by (cases c) (auto simp: hsInv_def callAlone_def hs_defs split: if_splits)

lemma hsInv_sequential:
  "hsInv (foldl (\<lambda>hs c. fst (callAlone isIOError hs c)) (newHealthStatus ep) cs)"
proof (induction cs rule: rev_induct)
  case Nil
  show ?case by (simp add: hsInv_def newHealthStatus_def)
next
  case (snoc c cs)
  then show ?case by (simp add: hsInv_callAlone)
qed

text \<open>
  C4 fails when two calls overlap. Four read requests fail with a deadline error one
  after the other, which leaves the route healthy with count 4. Then two more fail at
  the same time: both read the status under the read lock while it is still healthy, and
  both go on to the write lock. The first takes the count to 5, marks the route unhealthy
  and removes it; the second, on a route that is no longer healthy, adds one more to the
  count and removes the route again. In the same way a successful request that read the
  status while the route was healthy sets the count to 0 after a failed one has marked
  the route unhealthy.
\<close>

theorem C4_overlapping_calls_break_counting:
  "hsRun testIsIOError
      (hsStart ''node'' (replicate 6 (OnErrorInReadRequest ContextDeadlineExceeded (7::nat))))
      [0, 0, 1, 1, 2, 2, 3, 3, 4, 5, 4]
     = \<lparr>status = \<lparr>endpoint = ''node'', isHealthy = False, curReadTimeoutCount = 5\<rparr>,
        listener = [RemoveRoute ''node'' 7],
        goroutines = [Returned, Returned, Returned, Returned, Returned,
                      AtLock (OnErrorInReadRequest ContextDeadlineExceeded 7)]\<rparr>
   \<and> hsRun testIsIOError
      (hsStart ''node'' (replicate 6 (OnErrorInReadRequest ContextDeadlineExceeded (7::nat))))
      [0, 0, 1, 1, 2, 2, 3, 3, 4, 5, 4, 5]
     = \<lparr>status = \<lparr>endpoint = ''node'', isHealthy = False, curReadTimeoutCount = 6\<rparr>,
        listener = [RemoveRoute ''node'' 7, RemoveRoute ''node'' 7],
        goroutines = [Returned, Returned, Returned, Returned, Returned, Returned]\<rparr>
   \<and> hsRun testIsIOError
      (hsStart ''node'' (replicate 5 (OnErrorInReadRequest ContextDeadlineExceeded (7::nat))
                         @ [OnSuccessInReadRequest]))
      [0, 0, 1, 1, 2, 2, 3, 3, 5, 4, 4, 5]
     = \<lparr>status = \<lparr>endpoint = ''node'', isHealthy = False, curReadTimeoutCount = 0\<rparr>,
        listener = [RemoveRoute ''node'' 7],
        goroutines = [Returned, Returned, Returned, Returned, Returned, Returned]\<rparr>"
  by (simp add: hsRun_def hsStep_def hsStart_def newHealthStatus_def hs_defs numeral_eq_Suc)

section \<open>Properties of the cluster\<close>

lemma closeClient_frame:
  "active (closeClient env cl c) = active c"
  "routes (closeClient env cl c) = routes c"
  "closed (closeClient env cl c) = closed c"
  "clientBuilder (closeClient env cl c) = clientBuilder c"
  by (simp_all add: closeClient_def split: option.splits)

lemma closeClients_frame:
  "active (closeClients env xs c) = active c \<and> routes (closeClients env xs c) = routes c"
  by (induction xs arbitrary: c) (simp_all add: closeClient_frame)

lemma closeClient_keeps: "set (closeCalls c) \<subseteq> set (closeCalls (closeClient env cl c))"
  by (auto simp: closeClient_def split: option.splits)

lemma closeClients_keeps: "set (closeCalls c) \<subseteq> set (closeCalls (closeClients env xs c))"
proof (induction xs arbitrary: c)
  case Nil
  show ?case by simp
next
  case (Cons x xs)
  have "set (closeCalls c) \<subseteq> set (closeCalls (closeClient env (client x) c))"
    by (rule closeClient_keeps)
  also have "\<dots> \<subseteq> set (closeCalls (closeClients env xs (closeClient env (client x) c)))"
    by (rule Cons.IH)
  finally show ?case by simp
qed

lemma closeClients_closes:
  "x \<in> set xs \<Longrightarrow> client x = Some d \<Longrightarrow> isCloser env d
     \<Longrightarrow> d \<in> set (closeCalls (closeClients env xs c))"
proof (induction xs arbitrary: c)
  case Nil
  then show ?case by simp
next
  case (Cons y ys)
  show ?case
  proof (cases "x = y")
    case True
    with Cons.prems have "d \<in> set (closeCalls (closeClient env (client y) c))"
      by (simp add: closeClient_def)
    then show ?thesis using closeClients_keeps [of "closeClient env (client y) c" env ys]
      by auto
  next
    case False
    with Cons show ?thesis by simp
  qed
qed

text \<open>
  What \<open>update\<close> does when a build fails, for every roster and cluster: the active map
  and the routes stay, each client built in the call is closed, and so is each client of
  the old map whose endpoint is not in the new roster, although it stays in the map.
\<close>

lemma update_build_failure:
  assumes "\<not> closed c"
    and "createClients env (active c) config ([], [], [], clientBuilder c, healthCheckCalls c)
           = (False, newActive, newRoutes, newCliCfg, b, hcs)"
  shows "active (snd (update env config c)) = active c"
    and "routes (snd (update env config c)) = routes c"
    and "x \<in> set newCliCfg \<Longrightarrow> client x = Some d \<Longrightarrow> isCloser env d
           \<Longrightarrow> d \<in> set (closeCalls (snd (update env config c)))"
    and "(hp, y) \<in> set (active c) \<Longrightarrow> hp \<notin> set (map (hostPort env) config)
           \<Longrightarrow> client y = Some d \<Longrightarrow> isCloser env d
           \<Longrightarrow> d \<in> set (closeCalls (snd (update env config c)))"
proof -
  let ?toClose = "map snd (filter (\<lambda>(ep, clicfg). ep \<notin> set (map (hostPort env) config)) (active c))"
  have u: "snd (update env config c) =
     closeClients env (?toClose @ newCliCfg) (c\<lparr>clientBuilder := b, healthCheckCalls := hcs\<rparr>)"
    using assms by (simp add: update_def Let_def)
  show "active (snd (update env config c)) = active c"
    by (simp add: u closeClients_frame)
  show "routes (snd (update env config c)) = routes c"
    by (simp add: u closeClients_frame)
  show "d \<in> set (closeCalls (snd (update env config c)))"
    if "x \<in> set newCliCfg" "client x = Some d" "isCloser env d"
    unfolding u using that by (intro closeClients_closes [of x]) auto
  show "d \<in> set (closeCalls (snd (update env config c)))"
    if "(hp, y) \<in> set (active c)" "hp \<notin> set (map (hostPort env) config)"
      "client y = Some d" "isCloser env d"
  proof -
    have "y \<in> set (?toClose @ newCliCfg)" using that(1,2) by force
    then show ?thesis unfolding u using that(3,4) by (intro closeClients_closes [of y]) auto
  qed
qed

text \<open>
  C2. Scenario 3 of the specification run on the code: the active map holds \<open>A\<close>
  (port 1, client 0) and \<open>B\<close> (port 2, client 1), the new roster is \<open>A\<close> and \<open>C\<close>
  (port 3), and the builder fails for \<open>C\<close>. The active map and the routes are left as
  they were, and \<open>B\<close>, which is still in the active map, has been closed: the one
  \<open>Close\<close> call made is on client 1.
\<close>

theorem C2_update_partial_failure_closes_retained_client:
  "(let c = snd (update (testEnv [3]) [testEndpoint 1, testEndpoint 3] clusterAB)
    in map (\<lambda>(k, v). (hpPort k, client v)) (active clusterAB) = [(1, Some 0), (2, Some 1)]
       \<and> closeCalls clusterAB = []
       \<and> active c = active clusterAB \<and> routes c = routes clusterAB
       \<and> map_of (active c) (HostPort ''<nil>'' 2) = Some \<lparr>client = Some 1, cfg = testEndpoint 2\<rparr>
       \<and> closeCalls c = [1])"
  by code_simp

text \<open>
  C10. \<open>onHealthCheckFailed\<close> for a host and port that is not a key of the active map
  returns the cluster as it was: the same active map and routes, no client built and no
  \<open>Close\<close> call made.
\<close>

theorem C10_onHealthCheckFailed_unknown_host:
  "map_of (active c) hp = None \<Longrightarrow> onHealthCheckFailed env hp c = c"
  by (simp add: onHealthCheckFailed_def closeClient_def)

theorem C10_onHealthCheckFailed_unknown_host_witness:
  "map_of (active clusterAB) (HostPort ''<nil>'' 7) = None
   \<and> onHealthCheckFailed (testEnv []) (HostPort ''<nil>'' 7) clusterAB = clusterAB
   \<and> length (active clusterAB) = 2"
proof -
  have h: "map_of (active clusterAB) (HostPort ''<nil>'' 7) = None" by code_simp
  have l: "length (active clusterAB) = 2" by code_simp
  from h l C10_onHealthCheckFailed_unknown_host [OF h, of "testEnv []"] show ?thesis by simp
qed

section \<open>Properties of the per-node client\<close>

text \<open>
  C9. \<open>defineAttributeListId\<close> on the empty list of attribute names returns the id 1
  and no error, and \<open>defineAttributeList\<close> on the id 1 returns the empty list of names
  and no error; both leave the state of the connection as it was, whatever
  running a request (\<open>run\<close>, \<open>run'\<close>) would do: no request is executed.
\<close>

theorem C9_empty_attribute_list_id:
  "defineAttributeListId run [] s = ((1, None), s)
   \<and> defineAttributeList run' 1 s' = (([], None), s')
   \<and> emptyAttributeListId = 1"
  by (simp add: defineAttributeListId_def defineAttributeList_def emptyAttributeListId_def)

lemma recycleTube_server_error:
  "recycleTube authError now (Some t) (Some ex) =
     [if isDaxRequestFailure ex
      then Put (if authError ex then t\<lparr>authExpiryUnix := now\<rparr> else t)
      else CloseTube t]"
  by (simp add: recycleTube_def)

lemma auth_expired:
  assumes "Retrieve oc = Inr creds" "authExpiryUnix t \<le> authTime oc"
  shows "auth oc t =
     (case encodeAuthInput oc of
        Some err \<Rightarrow> (Some err, t\<lparr>currentAuthID := AccessKeyID creds\<rparr>)
      | None \<Rightarrow>
          (case authFlush oc of
             Some err \<Rightarrow> (Some err, t\<lparr>currentAuthID := AccessKeyID creds\<rparr>)
           | None \<Rightarrow>
               (None, t\<lparr>currentAuthID := AccessKeyID creds,
                         authExpiryUnix := authTime oc + tubeAuthWindowSecs\<rparr>)))"
  using assms by (simp add: auth_def CompareAndSwapAuthID_def split: option.splits)

text \<open>
  C5. In a run of \<open>executeWithContext\<close> that reaches the error decoder (the tube was
  acquired, the deadline set, authentication, encoding and flush succeeded) and gets a
  server error \<open>ex\<close> from it, that error is returned and exactly one call is made on the
  pool with the tube: \<open>put\<close> if \<open>ex\<close> is a \<open>daxRequestFailure\<close>, \<open>closeTube\<close> for
  any other error. When the failure is an authentication error the tube put back has its
  \<open>authExpiryUnix\<close> set to the current time, and is otherwise the tube as authentication
  left it. The next use of a tube stamped in this way authenticates again: in any later
  run \<open>oc'\<close> (its clock reads no less than the stamp) whose credentials are retrieved,
  \<open>auth\<close> on that tube does not skip the authentication request. It encodes and flushes
  the request, returns the error if one of the two fails, and otherwise gives the tube a
  new expiry, the time of that run plus the authentication window.
\<close>

theorem C5_recycle_on_server_error:
  "getWithContext oc = Inr t \<and> setDeadline oc = None \<and> auth oc t = (None, t1)
     \<and> encoder oc = None \<and> Flush oc = None \<and> decodeError oc = (Some ex, None)
   \<longrightarrow> executeWithContext authError oc =
        (Some ex,
         [if isDaxRequestFailure ex
          then Put (if authError ex then t1\<lparr>authExpiryUnix := recycleTime oc\<rparr> else t1)
          else CloseTube t1])
       \<and> (isDaxRequestFailure ex \<and> authError ex \<and> Retrieve oc' = Inr creds
            \<and> recycleTime oc \<le> authTime oc'
          \<longrightarrow> executeWithContext authError oc =
                (Some ex, [Put (t1\<lparr>authExpiryUnix := recycleTime oc\<rparr>)])
              \<and> auth oc' (t1\<lparr>authExpiryUnix := recycleTime oc\<rparr>) =
                (case encodeAuthInput oc' of
                   Some err \<Rightarrow>
                     (Some err,
                      t1\<lparr>authExpiryUnix := recycleTime oc, currentAuthID := AccessKeyID creds\<rparr>)
                 | None \<Rightarrow>
                     (case authFlush oc' of
                        Some err \<Rightarrow>
                          (Some err,
                           t1\<lparr>authExpiryUnix := recycleTime oc,
                              currentAuthID := AccessKeyID creds\<rparr>)
                      | None \<Rightarrow>
                          (None,
                           t1\<lparr>currentAuthID := AccessKeyID creds,
                              authExpiryUnix := authTime oc' + tubeAuthWindowSecs\<rparr>))))"
proof (intro impI conjI)
  assume a: "getWithContext oc = Inr t \<and> setDeadline oc = None \<and> auth oc t = (None, t1)
     \<and> encoder oc = None \<and> Flush oc = None \<and> decodeError oc = (Some ex, None)"
  then show e: "executeWithContext authError oc =
        (Some ex,
         [if isDaxRequestFailure ex
          then Put (if authError ex then t1\<lparr>authExpiryUnix := recycleTime oc\<rparr> else t1)
          else CloseTube t1])"
    by (simp add: executeWithContext_def recycleTube_server_error)
  assume b: "isDaxRequestFailure ex \<and> authError ex \<and> Retrieve oc' = Inr creds
            \<and> recycleTime oc \<le> authTime oc'"
  with e show "executeWithContext authError oc =
                (Some ex, [Put (t1\<lparr>authExpiryUnix := recycleTime oc\<rparr>)])"
    by simp
  from b have "authExpiryUnix (t1\<lparr>authExpiryUnix := recycleTime oc\<rparr>) \<le> authTime oc'" by simp
  from auth_expired [OF _ this, of creds] b
  show "auth oc' (t1\<lparr>authExpiryUnix := recycleTime oc\<rparr>) =
                (case encodeAuthInput oc' of
                   Some err \<Rightarrow>
                     (Some err,
                      t1\<lparr>authExpiryUnix := recycleTime oc, currentAuthID := AccessKeyID creds\<rparr>)
                 | None \<Rightarrow>
                     (case authFlush oc' of
                        Some err \<Rightarrow>
                          (Some err,
                           t1\<lparr>authExpiryUnix := recycleTime oc,
                              currentAuthID := AccessKeyID creds\<rparr>)
                      | None \<Rightarrow>
                          (None,
                           t1\<lparr>currentAuthID := AccessKeyID creds,
                              authExpiryUnix := authTime oc' + tubeAuthWindowSecs\<rparr>)))"
    by (simp split: option.splits)
qed

theorem C5_recycle_on_server_error_witness:
  "executeWithContext (\<lambda>e. e = DaxRequestFailure [4, 23, 31, 33] ''auth'')
      (serverErrorOutcome (DaxRequestFailure [4, 23, 31, 33] ''auth''))
     = (Some (DaxRequestFailure [4, 23, 31, 33] ''auth''), [Put (testTube\<lparr>authExpiryUnix := 501\<rparr>)])
   \<and> auth ((serverErrorOutcome (DaxRequestFailure [2] ''x''))\<lparr>authTime := 501\<rparr>)
        (testTube\<lparr>authExpiryUnix := 501\<rparr>)
     = (None, testTube\<lparr>authExpiryUnix := 726\<rparr>)
   \<and> auth ((serverErrorOutcome (DaxRequestFailure [2] ''x''))
              \<lparr>authTime := 501, authFlush := Some EOF\<rparr>)
        (testTube\<lparr>authExpiryUnix := 501\<rparr>)
     = (Some EOF, testTube\<lparr>authExpiryUnix := 501\<rparr>)
   \<and> executeWithContext (\<lambda>e. False) (serverErrorOutcome (DaxRequestFailure [2] ''x''))
     = (Some (DaxRequestFailure [2] ''x''), [Put testTube])
   \<and> executeWithContext (\<lambda>e. False) (serverErrorOutcome (DaxTransactionCanceledFailure [4] ''x''))
     = (Some (DaxTransactionCanceledFailure [4] ''x''), [CloseTube testTube])"
proof -
  let ?authEx = "DaxRequestFailure [4, 23, 31, 33] ''auth''"
  let ?next = "(serverErrorOutcome (DaxRequestFailure [2] ''x''))\<lparr>authTime := 501\<rparr>"
  let ?nextFail = "(serverErrorOutcome (DaxRequestFailure [2] ''x''))
                     \<lparr>authTime := 501, authFlush := Some EOF\<rparr>"
  have a: "auth (serverErrorOutcome ex) testTube = (None, testTube)" for ex
    by (simp add: auth_def serverErrorOutcome_def testTube_def CompareAndSwapAuthID_def)
  have h: "getWithContext (serverErrorOutcome ex) = Inr testTube
     \<and> setDeadline (serverErrorOutcome ex) = None
     \<and> auth (serverErrorOutcome ex) testTube = (None, testTube)
     \<and> encoder (serverErrorOutcome ex) = None \<and> Flush (serverErrorOutcome ex) = None
     \<and> decodeError (serverErrorOutcome ex) = (Some ex, None)" for ex
    using a [of ex] by (simp add: serverErrorOutcome_def)
  have r: "recycleTime (serverErrorOutcome ex) = 501" for ex
    by (simp add: serverErrorOutcome_def)
  have n: "Retrieve ?next = Inr \<lparr>AccessKeyID = ''AKID'', SessionToken = []\<rparr>"
    "authTime ?next = 501" "encodeAuthInput ?next = None" "authFlush ?next = None"
    "Retrieve ?nextFail = Inr \<lparr>AccessKeyID = ''AKID'', SessionToken = []\<rparr>"
    "authTime ?nextFail = 501" "encodeAuthInput ?nextFail = None" "authFlush ?nextFail = Some EOF"
    by (simp_all add: serverErrorOutcome_def)
  have t: "testTube\<lparr>authExpiryUnix := 501, currentAuthID := ''AKID''\<rparr>
             = testTube\<lparr>authExpiryUnix := 501\<rparr>"
    "testTube\<lparr>currentAuthID := ''AKID'', authExpiryUnix := 501 + tubeAuthWindowSecs\<rparr>
             = testTube\<lparr>authExpiryUnix := 726\<rparr>"
    by (simp_all add: testTube_def tubeAuthWindowSecs_def)
  show ?thesis
    using C5_recycle_on_server_error
        [of "serverErrorOutcome ?authEx" testTube testTube ?authEx "\<lambda>e. e = ?authEx"
            ?next "\<lparr>AccessKeyID = ''AKID'', SessionToken = []\<rparr>"]
      C5_recycle_on_server_error
        [of "serverErrorOutcome ?authEx" testTube testTube ?authEx "\<lambda>e. e = ?authEx"
            ?nextFail "\<lparr>AccessKeyID = ''AKID'', SessionToken = []\<rparr>"]
      C5_recycle_on_server_error
        [of "serverErrorOutcome (DaxRequestFailure [2] ''x'')" testTube testTube
            "DaxRequestFailure [2] ''x''" "\<lambda>e. False"]
      C5_recycle_on_server_error
        [of "serverErrorOutcome (DaxTransactionCanceledFailure [4] ''x'')" testTube testTube
            "DaxTransactionCanceledFailure [4] ''x''" "\<lambda>e. False"]
      h r n t
    by simp
qed

section \<open>Properties of the retry loops\<close>

lemma retryLoop_exit:
  "retryLoop env opt attempts (attempts + 1) cl err calls s = (err, calls, s)"
  by (simp add: retryLoop.simps [of env opt attempts "attempts + 1"])

text \<open>
  The calls of the action made from index \<open>i\<close> on: at most one for each index up to
  \<open>attempts\<close>, each with the options the loop was given.
\<close>

lemma retryLoop_calls:
  "retryLoop env opt attempts i cl err calls s = (r, calls', s')
   \<Longrightarrow> \<exists>new. calls' = calls @ new \<and> length new \<le> nat (attempts + 1 - i)
           \<and> map snd new = replicate (length new) opt"
proof (induction "nat (attempts + 1 - i)" arbitrary: i cl err calls s)
  case 0
  then have "\<not> i \<le> attempts" by simp
  with "0.prems" show ?case by (simp add: retryLoop.simps [of env opt attempts i])
next
  case (Suc k)
  then have le: "i \<le> attempts" and k: "k = nat (attempts + 1 - (i + 1))" by simp_all
  have IH: "\<exists>new. calls' = c2 @ new \<and> length new \<le> k \<and> map snd new = replicate (length new) opt"
    if "retryLoop env opt attempts (i + 1) cl2 err2 c2 s2 = (r, calls', s')" for cl2 err2 c2 s2
    using Suc.hyps(1) [OF k that] k by simp
  have k': "Suc k = nat (attempts + 1 - i)" by (rule Suc.hyps(2))
  from Suc.prems le k' show ?case
    apply (subst (asm) retryLoop.simps)
    apply (simp split: prod.splits option.splits if_splits add: Let_def retryLoop_exit)
    by (auto dest!: IH simp: retryLoop_exit)
qed

lemma retry_calls:
  "length (fst (snd (retry env opt s))) \<le> nat (RetryMaxAttempts opt + 1)
   \<and> map snd (fst (snd (retry env opt s))) =
       replicate (length (fst (snd (retry env opt s)))) (opt\<lparr>RetryMaxAttempts := 0\<rparr>)"
proof -
  obtain r calls' s' where l:
    "retryLoop env (opt\<lparr>RetryMaxAttempts := 0\<rparr>) (RetryMaxAttempts opt) 0 None None [] s
       = (r, calls', s')"
    by (metis prod.exhaust)
  from retryLoop_calls [OF l] have
    "length calls' \<le> nat (RetryMaxAttempts opt + 1)
     \<and> map snd calls' = replicate (length calls') (opt\<lparr>RetryMaxAttempts := 0\<rparr>)"
    by auto
  moreover have "fst (snd (retry env opt s)) = calls'"
    by (simp add: retry_def Let_def l)
  ultimately show ?thesis by simp
qed

lemma executeLoop_exit:
  "executeLoop env o' attempts (attempts + 1) err n s = (translateError env err, n, s)"
  by (simp add: executeLoop.simps [of env o' attempts "attempts + 1"])

lemma executeWithRetries_no_retries:
  "fst (snd (executeWithRetries env (o'\<lparr>RetryMaxAttempts := 0\<rparr>) s)) = 1"
  unfolding executeWithRetries_def
  apply (subst executeLoop.simps)
  using executeLoop_exit [of env _ 0]
  by (simp split: prod.splits option.splits)

text \<open>
  C6. The loop of \<open>ClusterDaxClient.retry\<close> invokes the action at most
  \<open>RetryMaxAttempts + 1\<close> times (not at all when that number is negative); every
  invocation is given the caller's options with \<open>RetryMaxAttempts\<close> set to 0; and
  \<open>executeWithRetries\<close> of the per-node client, run with \<open>RetryMaxAttempts\<close> 0, makes
  exactly one attempt.
\<close>

theorem C6_retry_attempts_bounded:
  "length (fst (snd (retry env opt s))) \<le> nat (RetryMaxAttempts opt + 1)
   \<and> map snd (fst (snd (retry env opt s))) =
       replicate (length (fst (snd (retry env opt s)))) (opt\<lparr>RetryMaxAttempts := 0\<rparr>)
   \<and> map (\<lambda>call. RetryMaxAttempts (snd call)) (fst (snd (retry env opt s))) =
       replicate (length (fst (snd (retry env opt s)))) 0
   \<and> fst (snd (executeWithRetries env' (o'\<lparr>RetryMaxAttempts := 0\<rparr>) s')) = 1"
proof -
  let ?calls = "fst (snd (retry env opt s))"
  have a: "length ?calls \<le> nat (RetryMaxAttempts opt + 1)"
    and b: "map snd ?calls = replicate (length ?calls) (opt\<lparr>RetryMaxAttempts := 0\<rparr>)"
    using retry_calls [of env opt s] by simp_all
  have "map (\<lambda>call. RetryMaxAttempts (snd call)) ?calls = map RetryMaxAttempts (map snd ?calls)"
    by simp
  also have "\<dots> = replicate (length ?calls) 0"
    by (subst b) simp
  finally have c: "map (\<lambda>call. RetryMaxAttempts (snd call)) ?calls = replicate (length ?calls) 0" .
  from a b c executeWithRetries_no_retries [of env' o' s'] show ?thesis by blast
qed

lemma cancel_not_retryable:
  "errorsIs e ContextCanceled \<Longrightarrow> \<not> isRetryableSpec thr opt e \<and> \<not> isDaxError e"
  by (cases e) simp_all

text \<open>
  What the loop of \<open>executeWithRetries\<close> does with an error that is not and does not
  wrap \<open>context.Canceled\<close>, a deadline error among them: before the last attempt it
  sleeps, and returns an \<open>OperationError\<close> wrapping the sleep's error or, if the sleep
  returns normally, goes on to the next attempt; at the last attempt it returns what
  \<open>translateError\<close> makes of the error. The loop itself builds no \<open>CanceledError\<close> for it.
\<close>

lemma executeLoop_other_error:
  assumes "exec env s = (Some e, s1)" "\<not> errorsIs e ContextCanceled" "i \<le> attempts"
  shows "executeLoop env o' attempts i err n s =
     (if i \<noteq> attempts then
        (case SleepWithContext env (RetryDelay o') s1 of
           (Some sleepErr, s2) \<Rightarrow> (Some (OperationError sleepErr), n + 1, s2)
         | (None, s2) \<Rightarrow> executeLoop env o' attempts (i + 1) (Some e) (n + 1) s2)
      else (translateError env (Some e), n + 1, s1))"
  using assms executeLoop_exit [of env o' attempts "Some e" "n + 1" s1]
  by (subst executeLoop.simps) (simp split: prod.splits option.splits)

text \<open>
  C7, as the code has it. In \<open>executeWithRetries\<close>, when an attempt returns an error
  that is or wraps \<open>context.Canceled\<close>, the loop returns at once a \<open>CanceledError\<close>
  wrapping that error: no sleep and no further attempt. In \<open>ClusterDaxClient.retry\<close>,
  with the retryable classification of the spec (which does not retry a context error),
  when the action returns an error that is or wraps \<open>context.Canceled\<close>, such as the
  \<open>CanceledError\<close> of the per-node client, the loop returns at once, with no sleep and no
  further attempt, and \<open>retry\<close> returns that error unchanged: the deferred conversion
  does not apply to it.
\<close>

theorem C7_cancel_returns_at_once:
  "(exec env s = (Some e, s1) \<and> errorsIs e ContextCanceled \<and> i \<le> attempts
      \<longrightarrow> executeLoop env o' attempts i err n s = (Some (CanceledError e), n + 1, s1))
   \<and> (exec env s = (Some e, s1) \<and> errorsIs e ContextCanceled \<and> 0 \<le> RetryMaxAttempts o'
      \<longrightarrow> executeWithRetries env o' s = (Some (CanceledError e), 1, s1))
   \<and> (getRoute env' cl t = (Some route, t1) \<and> action env' (Some route) opt t1 = (Some e', t2)
        \<and> errorsIs e' ContextCanceled \<and> j \<le> attempts'
      \<longrightarrow> retryLoop (env'\<lparr>isRetryable := isRetryableSpec thr\<rparr>) opt attempts' j cl err' calls t
            = (Some e', calls @ [(Some route, opt)], t2))
   \<and> (getRoute env' None t = (Some route, t1)
        \<and> action env' (Some route) (opt\<lparr>RetryMaxAttempts := 0\<rparr>) t1 = (Some e', t2)
        \<and> errorsIs e' ContextCanceled \<and> 0 \<le> RetryMaxAttempts opt
      \<longrightarrow> retry (env'\<lparr>isRetryable := isRetryableSpec thr\<rparr>) opt t
            = (Some e', [(Some route, opt\<lparr>RetryMaxAttempts := 0\<rparr>)], t2))"
proof (intro conjI impI)
  assume "exec env s = (Some e, s1) \<and> errorsIs e ContextCanceled \<and> i \<le> attempts"
  then show "executeLoop env o' attempts i err n s = (Some (CanceledError e), n + 1, s1)"
    by (subst executeLoop.simps) simp
next
  assume "exec env s = (Some e, s1) \<and> errorsIs e ContextCanceled \<and> 0 \<le> RetryMaxAttempts o'"
  then show "executeWithRetries env o' s = (Some (CanceledError e), 1, s1)"
    unfolding executeWithRetries_def by (subst executeLoop.simps) simp
next
  assume a: "getRoute env' cl t = (Some route, t1)
        \<and> action env' (Some route) opt t1 = (Some e', t2)
        \<and> errorsIs e' ContextCanceled \<and> j \<le> attempts'"
  then have "\<not> isRetryableSpec thr opt e'" using cancel_not_retryable [of e' thr opt] by simp
  with a show "retryLoop (env'\<lparr>isRetryable := isRetryableSpec thr\<rparr>) opt attempts' j cl err' calls t
            = (Some e', calls @ [(Some route, opt)], t2)"
    by (subst retryLoop.simps) (simp add: clusterClient_def)
next
  assume a: "getRoute env' None t = (Some route, t1)
        \<and> action env' (Some route) (opt\<lparr>RetryMaxAttempts := 0\<rparr>) t1 = (Some e', t2)
        \<and> errorsIs e' ContextCanceled \<and> 0 \<le> RetryMaxAttempts opt"
  then have n: "\<not> isRetryableSpec thr (opt\<lparr>RetryMaxAttempts := 0\<rparr>) e'" "\<not> isDaxError e'"
    using cancel_not_retryable [of e' thr "opt\<lparr>RetryMaxAttempts := 0\<rparr>"] by simp_all
  from a n(1) have "retryLoop (env'\<lparr>isRetryable := isRetryableSpec thr\<rparr>)
        (opt\<lparr>RetryMaxAttempts := 0\<rparr>) (RetryMaxAttempts opt) 0 None None [] t
      = (Some e', [(Some route, opt\<lparr>RetryMaxAttempts := 0\<rparr>)], t2)"
    by (subst retryLoop.simps) (simp add: clusterClient_def)
  with n(2) show "retry (env'\<lparr>isRetryable := isRetryableSpec thr\<rparr>) opt t
            = (Some e', [(Some route, opt\<lparr>RetryMaxAttempts := 0\<rparr>)], t2)"
    by (simp add: retry_def Let_def)
qed

theorem C7_cancel_returns_at_once_witness:
  "executeLoop (testRetryEnv None) \<lparr>RetryMaxAttempts = 2, RetryDelay = 0\<rparr> 2 1 None 1
       [Some (OperationError ContextCanceled), None]
     = (Some (CanceledError (OperationError ContextCanceled)), 2, [None])
   \<and> executeWithRetries (testRetryEnv None) \<lparr>RetryMaxAttempts = 2, RetryDelay = 0\<rparr>
       [Some (OperationError ContextCanceled), None]
     = (Some (CanceledError (OperationError ContextCanceled)), 1, [None])
   \<and> retryLoop ((testRetryEnv None)\<lparr>isRetryable := isRetryableSpec (\<lambda>codes code. False)\<rparr>)
       \<lparr>RetryMaxAttempts = 0, RetryDelay = 0\<rparr> 3 1 None None []
       [Some (CanceledError ContextCanceled), None]
     = (Some (CanceledError ContextCanceled),
        [(Some 0, \<lparr>RetryMaxAttempts = 0, RetryDelay = 0\<rparr>)], [None])
   \<and> retry ((testRetryEnv None)\<lparr>isRetryable := isRetryableSpec (\<lambda>codes code. False)\<rparr>)
       \<lparr>RetryMaxAttempts = 3, RetryDelay = 0\<rparr>
       [Some (CanceledError ContextCanceled), None]
     = (Some (CanceledError ContextCanceled),
        [(Some 0, \<lparr>RetryMaxAttempts = 0, RetryDelay = 0\<rparr>)], [None])"
proof -
  let ?s = "[Some (OperationError ContextCanceled), None]"
  let ?t = "[Some (CanceledError ContextCanceled), None]"
  let ?o = "\<lparr>RetryMaxAttempts = 2, RetryDelay = 0\<rparr>"
  let ?opt = "\<lparr>RetryMaxAttempts = 3, RetryDelay = 0\<rparr>"
  let ?optz = "\<lparr>RetryMaxAttempts = 0, RetryDelay = 0\<rparr>"
  have h1: "exec (testRetryEnv None) ?s = (Some (OperationError ContextCanceled), [None])
            \<and> errorsIs (OperationError ContextCanceled) ContextCanceled
            \<and> (1::int) \<le> 2 \<and> 0 \<le> RetryMaxAttempts ?o"
    by (simp add: testRetryEnv_def)
  have h2: "getRoute (testRetryEnv None) None ?t = (Some 0, ?t)
            \<and> action (testRetryEnv None) (Some 0) ?optz ?t
              = (Some (CanceledError ContextCanceled), [None])
            \<and> errorsIs (CanceledError ContextCanceled) ContextCanceled
            \<and> (1::int) \<le> 3 \<and> 0 \<le> RetryMaxAttempts ?opt
            \<and> ?opt\<lparr>RetryMaxAttempts := 0\<rparr> = ?optz"
    by (simp add: testRetryEnv_def)
  have a: "executeLoop (testRetryEnv None) ?o 2 1 None 1 ?s
       = (Some (CanceledError (OperationError ContextCanceled)), 2, [None])
     \<and> executeWithRetries (testRetryEnv None) ?o ?s
       = (Some (CanceledError (OperationError ContextCanceled)), 1, [None])
     \<and> retryLoop ((testRetryEnv None)\<lparr>isRetryable := isRetryableSpec (\<lambda>codes code. False)\<rparr>)
         ?optz 3 1 None None [] ?t
       = (Some (CanceledError ContextCanceled), [(Some 0, ?optz)], [None])"
    using h1 h2 C7_cancel_returns_at_once
      [of "testRetryEnv None" ?s "OperationError ContextCanceled" "[None]" 1 2 ?o None 1
          "testRetryEnv None" None ?t 0 ?t ?optz "CanceledError ContextCanceled" "[None]"
          1 3 "\<lambda>codes code. False" None "[]"]
    by simp
  have b: "retry ((testRetryEnv None)\<lparr>isRetryable := isRetryableSpec (\<lambda>codes code. False)\<rparr>)
         ?opt ?t
       = (Some (CanceledError ContextCanceled), [(Some 0, ?optz)], [None])"
    using h1 h2 C7_cancel_returns_at_once
      [of "testRetryEnv None" ?s "OperationError ContextCanceled" "[None]" 1 2 ?o None 1
          "testRetryEnv None" None ?t 0 ?t ?opt "CanceledError ContextCanceled" "[None]"
          1 3 "\<lambda>codes code. False" None "[]"]
    by simp
  from a b show ?thesis by simp
qed

text \<open>
  A deadline error is not returned as a \<open>CanceledError\<close> by \<open>executeWithRetries\<close>.
  With one retry allowed and a context whose deadline has passed, the attempt returns
  \<open>context.DeadlineExceeded\<close> and the sleep before the next attempt fails, as
  \<open>TestSleep\<close> shows it for a deadline, with an \<open>OperationError\<close>: the loop returns an
  \<open>OperationError\<close> wrapping the sleep's error.
\<close>

theorem C7_deadline_counterexample:
  "executeWithRetries (testRetryEnv (Some (OperationError ContextDeadlineExceeded)))
       \<lparr>RetryMaxAttempts = 1, RetryDelay = 1\<rparr>
       [Some ContextDeadlineExceeded, Some ContextDeadlineExceeded]
     = (Some (OperationError (OperationError ContextDeadlineExceeded)), 1,
        [Some ContextDeadlineExceeded])
   \<and> Some (OperationError (OperationError ContextDeadlineExceeded))
        \<noteq> Some (CanceledError ContextDeadlineExceeded)"
  by code_simp

section \<open>Properties of seed endpoint parsing\<close>

lemmas parse_defs = parseHostPort_def testLibrary_def testParseRequestURI_def Sprintf_def Atoi_def ParseInt_def ParseUint_def
  isDigit_def digitValue_def defaultPorts_def Let_def

lemma stringsIndex_dax_prefix: "stringsIndex (''dax://'' @ s) ''://'' \<noteq> - 1"
  by simp

lemma parseHostPort_scheme:
  "parseHostPort G hp = Inr (h, p, sch) \<Longrightarrow> sch = ''dax'' \<or> sch = ''daxs''"
  by (auto simp: parseHostPort_def Let_def defaultPorts_def split: if_splits sum.splits)

lemma parseHostPort_known:
  assumes "stringsIndex hp ''://'' \<noteq> - 1" "ParseRequestURI G hp = Inr u" "Hostname u \<noteq> []"
    "map_of defaultPorts (Scheme u) = Some d"
  shows "parseHostPort G hp =
           Inr (Hostname u, (case Atoi (Port u) of Inr p \<Rightarrow> p | Inl e \<Rightarrow> d), Scheme u)"
  using assms by (simp add: parseHostPort_def Let_def split: sum.splits)

lemma parseHostPort_unknown_scheme:
  assumes "stringsIndex hp ''://'' \<noteq> - 1" "ParseRequestURI G hp = Inr u" "Hostname u \<noteq> []"
    "Scheme u \<noteq> ''dax''" "Scheme u \<noteq> ''daxs''"
  shows "\<exists>msg. parseHostPort G hp = Inl (GenericAPIError ErrCodeInvalidParameter msg)"
  using assms by (simp add: parseHostPort_def Let_def defaultPorts_def)

lemma parseHostPort_no_scheme:
  assumes "stringsIndex hp ''://'' = - 1" "stringsIndex hp '':'' \<noteq> - 1"
  shows "parseHostPort G hp = parseHostPort G (''dax://'' @ hp)"
  using assms stringsIndex_dax_prefix [of hp]
  by (simp add: parseHostPort_def Let_def del: stringsIndex.simps)

lemma parseHostPort_no_colon:
  assumes "stringsIndex hp ''://'' = - 1" "stringsIndex hp '':'' = - 1"
  shows "\<exists>msg. parseHostPort G hp = Inl (GenericAPIError ErrCodeInvalidParameter msg)"
  using assms by (simp add: parseHostPort_def)

lemma getHostPortsLoop_later:
  "i > 0 \<Longrightarrow> getHostPortsLoop G hosts i out hn enc = Inr (out', hn', enc')
   \<Longrightarrow> enc' = enc \<and> (enc \<longrightarrow> hosts = [])
       \<and> (\<forall>h \<in> set hosts. \<exists>host port. parseHostPort G h = Inr (host, port, ''dax''))"
proof (induction hosts arbitrary: i out hn)
  case Nil
  then show ?case by simp
next
  case (Cons hp hosts)
  from Cons.prems(2) obtain host port scheme
    where p: "parseHostPort G hp = Inr (host, port, scheme)"
    by (auto split: sum.splits)
  have sch: "scheme = ''dax'' \<or> scheme = ''daxs''" using parseHostPort_scheme [OF p] .
  from Cons.prems p have e: "enc = (scheme = ''daxs'')" and nd: "scheme \<noteq> ''daxs''"
    by (auto simp: Let_def split: if_splits)
  with sch have d: "scheme = ''dax''" and ne: "\<not> enc" by auto
  from Cons.prems p e nd have rec:
    "getHostPortsLoop G hosts (i + 1) (out @ [HostPort host port]) host enc = Inr (out', hn', enc')"
    by (simp add: Let_def)
  from Cons.IH [OF _ rec] p d ne show ?case by auto
qed

lemma getHostPorts_ok:
  assumes "getHostPorts G hosts = Inr (out, hn, enc)"
  shows "(\<forall>h \<in> set hosts. \<exists>host port.
            parseHostPort G h = Inr (host, port, if enc then ''daxs'' else ''dax''))
         \<and> (enc \<longrightarrow> length hosts = 1)"
proof (cases hosts)
  case Nil
  with assms show ?thesis by (simp add: getHostPorts_def)
next
  case (Cons hp rest)
  from assms Cons obtain host port scheme
    where p: "parseHostPort G hp = Inr (host, port, scheme)"
    by (auto simp: getHostPorts_def split: sum.splits)
  have sch: "scheme = ''dax'' \<or> scheme = ''daxs''" using parseHostPort_scheme [OF p] .
  from assms Cons p have rec:
    "getHostPortsLoop G rest 1 [HostPort host port] host (scheme = ''daxs'') = Inr (out, hn, enc)"
    by (cases "scheme = ''daxs''") (simp_all add: getHostPorts_def Let_def)
  from getHostPortsLoop_later [OF _ rec] have
    "enc = (scheme = ''daxs'')" "scheme = ''daxs'' \<longrightarrow> rest = []"
    "\<forall>h \<in> set rest. \<exists>host port. parseHostPort G h = Inr (host, port, ''dax'')"
    by simp_all
  with p sch Cons show ?thesis by auto
qed

text \<open>
  C8, as the code has it. For a seed with a scheme that the URL parser accepts with a
  non-empty host: scheme \<open>dax\<close> gives the host, the port written in the seed or 8111
  when none is, and \<open>dax\<close>; scheme \<open>daxs\<close> the same with 9111. A seed without
  \<open>://\<close> that contains a colon is parsed as the seed with \<open>dax://\<close> put in front of
  it; a seed with neither \<open>://\<close> nor a colon is rejected with the error code of an
  invalid parameter. A result of \<open>parseHostPort\<close> has scheme \<open>dax\<close> or \<open>daxs\<close>, and
  a parsed URL with any other scheme is rejected with the error code of an invalid
  parameter. When \<open>getHostPorts\<close> accepts a seed list all its seeds have one scheme,
  \<open>daxs\<close> exactly when the result is marked encrypted, and an encrypted list has exactly
  one seed.
\<close>

theorem C8_seed_endpoint_parsing:
  "(stringsIndex hp1 ''://'' \<noteq> - 1 \<and> ParseRequestURI G hp1 = Inr u1 \<and> Hostname u1 \<noteq> []
        \<and> Scheme u1 = ''dax''
      \<longrightarrow> parseHostPort G hp1 =
            Inr (Hostname u1, (case Atoi (Port u1) of Inr p \<Rightarrow> p | Inl e \<Rightarrow> 8111), ''dax''))
   \<and> (stringsIndex hp2 ''://'' \<noteq> - 1 \<and> ParseRequestURI G hp2 = Inr u2 \<and> Hostname u2 \<noteq> []
        \<and> Scheme u2 = ''daxs''
      \<longrightarrow> parseHostPort G hp2 =
            Inr (Hostname u2, (case Atoi (Port u2) of Inr p \<Rightarrow> p | Inl e \<Rightarrow> 9111), ''daxs''))
   \<and> (stringsIndex hp3 ''://'' = - 1 \<and> stringsIndex hp3 '':'' \<noteq> - 1
      \<longrightarrow> parseHostPort G hp3 = parseHostPort G (''dax://'' @ hp3))
   \<and> (stringsIndex hp4 ''://'' = - 1 \<and> stringsIndex hp4 '':'' = - 1
      \<longrightarrow> (\<exists>msg. parseHostPort G hp4 = Inl (GenericAPIError ErrCodeInvalidParameter msg)))
   \<and> (parseHostPort G hp5 = Inr (h5, p5, sch5) \<longrightarrow> sch5 = ''dax'' \<or> sch5 = ''daxs'')
   \<and> (stringsIndex hp6 ''://'' \<noteq> - 1 \<and> ParseRequestURI G hp6 = Inr u6 \<and> Hostname u6 \<noteq> []
        \<and> Scheme u6 \<noteq> ''dax'' \<and> Scheme u6 \<noteq> ''daxs''
      \<longrightarrow> (\<exists>msg. parseHostPort G hp6 = Inl (GenericAPIError ErrCodeInvalidParameter msg)))
   \<and> (getHostPorts G hosts = Inr (out, hn, enc)
      \<longrightarrow> (\<forall>h \<in> set hosts. \<exists>host port.
              parseHostPort G h = Inr (host, port, if enc then ''daxs'' else ''dax''))
          \<and> (enc \<longrightarrow> length hosts = 1))"
proof -
  have d1: "map_of defaultPorts ''dax'' = Some 8111" and d2: "map_of defaultPorts ''daxs'' = Some 9111"
    by (simp_all add: defaultPorts_def)
  show ?thesis
    using parseHostPort_known [of hp1 G u1 8111] parseHostPort_known [of hp2 G u2 9111]
      parseHostPort_no_scheme [of hp3 G] parseHostPort_no_colon [of hp4 G]
      parseHostPort_scheme [of G hp5 h5 p5 sch5] parseHostPort_unknown_scheme [of hp6 G u6]
      getHostPorts_ok [of G hosts out hn enc] d1 d2
    by (intro conjI impI) (simp_all del: stringsIndex.simps)
qed

theorem C8_seed_endpoint_parsing_witness:
  "parseHostPort testLibrary ''dax://host'' = Inr (''host'', 8111, ''dax'')
   \<and> parseHostPort testLibrary ''daxs://host'' = Inr (''host'', 9111, ''daxs'')
   \<and> parseHostPort testLibrary ''host:1234'' = Inr (''host'', 1234, ''dax'')
   \<and> (\<exists>msg. parseHostPort testLibrary ''localhost''
               = Inl (GenericAPIError ErrCodeInvalidParameter msg))
   \<and> (\<exists>msg. parseHostPort testLibrary ''sample://host''
               = Inl (GenericAPIError ErrCodeInvalidParameter msg))
   \<and> getHostPorts testLibrary [''dax://a'', ''b:8111'']
        = Inr ([HostPort ''a'' 8111, HostPort ''b'' 8111], ''b'', False)
   \<and> parseHostPort testLibrary ''b:8111'' = Inr (''b'', 8111, ''dax'')"
proof -
  let ?G = testLibrary
  have u1: "ParseRequestURI ?G ''dax://host''
              = Inr \<lparr>Scheme = ''dax'', Hostname = ''host'', Port = []\<rparr>"
    and u2: "ParseRequestURI ?G ''daxs://host''
              = Inr \<lparr>Scheme = ''daxs'', Hostname = ''host'', Port = []\<rparr>"
    and u6: "ParseRequestURI ?G ''sample://host''
              = Inr \<lparr>Scheme = ''sample'', Hostname = ''host'', Port = []\<rparr>"
    by (simp_all add: testLibrary_def testParseRequestURI_def Let_def)
  have i: "stringsIndex ''dax://host'' ''://'' \<noteq> - 1" "stringsIndex ''daxs://host'' ''://'' \<noteq> - 1"
    "stringsIndex ''host:1234'' ''://'' = - 1" "stringsIndex ''host:1234'' '':'' \<noteq> - 1"
    "stringsIndex ''localhost'' ''://'' = - 1" "stringsIndex ''localhost'' '':'' = - 1"
    "stringsIndex ''sample://host'' ''://'' \<noteq> - 1"
    by simp_all
  have a: "Atoi [] = Inl ErrSyntax" by (simp add: Atoi_def ParseInt_def)
  have p3: "parseHostPort ?G ''dax://host:1234'' = Inr (''host'', 1234, ''dax'')"
    by (simp add: parse_defs)
  have g: "getHostPorts ?G [''dax://a'', ''b:8111'']
        = Inr ([HostPort ''a'' 8111, HostPort ''b'' 8111], ''b'', False)"
    by (simp add: getHostPorts_def parse_defs)
  have p5: "parseHostPort ?G ''b:8111'' = Inr (''b'', 8111, ''dax'')"
    by (simp add: parse_defs)
  note w = C8_seed_endpoint_parsing
      [of "''dax://host''" ?G "\<lparr>Scheme = ''dax'', Hostname = ''host'', Port = []\<rparr>"
          "''daxs://host''" "\<lparr>Scheme = ''daxs'', Hostname = ''host'', Port = []\<rparr>"
          "''host:1234''" "''localhost''" "''b:8111''" "''b''" 8111 "''dax''"
          "''sample://host''" "\<lparr>Scheme = ''sample'', Hostname = ''host'', Port = []\<rparr>"
          "[''dax://a'', ''b:8111'']" "[HostPort ''a'' 8111, HostPort ''b'' 8111]" "''b''" False]
  from w u1 u2 u6 i a p3 g p5 show ?thesis
    by (simp del: stringsIndex.simps)
qed

text \<open>
  A seed with neither a scheme nor a port is not given the scheme \<open>dax\<close>: it is
  rejected before the URL parser is called.
\<close>

theorem C8_no_scheme_no_port_counterexample:
  "parseHostPort testLibrary ''localhost''
     = Inl (GenericAPIError ErrCodeInvalidParameter ''localhostInvalid hostport.'')
   \<and> parseHostPort testLibrary ''dax://localhost'' = Inr (''localhost'', 8111, ''dax'')"
  by (simp add: parse_defs)

section \<open>Properties of the codec\<close>

subsection \<open>Bytes\<close>

lemma low5: "n < 32 \<Longrightarrow> (of_nat n :: 8 word) AND 0x1F = of_nat n"
proof -
  assume n: "n < 32"
  have "take_bit 5 (of_nat n :: 8 word) = of_nat (take_bit 5 n)"
    by (simp add: take_bit_of_nat)
  also have "take_bit 5 n = n" using n by (simp add: take_bit_nat_eq_self)
  finally have "take_bit 5 (of_nat n :: 8 word) = of_nat n" .
  moreover have "mask 5 = (0x1F :: 8 word)" by (simp add: mask_eq_exp_minus_1)
  ultimately show ?thesis by (simp add: take_bit_eq_mask)
qed

lemma split_byte: "(x :: 8 word) = (x AND 0xE0) OR (x AND 0x1F)"
proof -
  have "(x AND 0xE0) OR (x AND 0x1F) = x AND (0xE0 OR 0x1F)"
    by (rule bit.conj_disj_distrib [symmetric])
  also have "(0xE0 OR 0x1F :: 8 word) = - 1" by simp
  finally show ?thesis by simp
qed

lemma hdr_major: "(m :: 8 word) AND 0x1F = 0 \<Longrightarrow> v AND 0x1F = v \<Longrightarrow> (m OR v) AND 0xE0 = m"
proof -
  assume m: "m AND 0x1F = 0" and v: "v AND 0x1F = v"
  have "v AND 0xE0 = (v AND 0x1F) AND 0xE0" using v by simp
  also have "\<dots> = v AND (0x1F AND 0xE0)" by (simp only: and.assoc)
  also have "\<dots> = 0" by simp
  finally have v0: "v AND 0xE0 = 0" .
  have "(m OR v) AND 0xE0 = (m AND 0xE0) OR (v AND 0xE0)" by (rule word_ao_dist)
  also have "\<dots> = m AND 0xE0" using v0 by simp
  also have "\<dots> = m" using split_byte [of m] m by simp
  finally show ?thesis .
qed

lemma hdr_minor: "(m :: 8 word) AND 0x1F = 0 \<Longrightarrow> v AND 0x1F = v \<Longrightarrow> (m OR v) AND 0x1F = v"
proof -
  assume m: "m AND 0x1F = 0" and v: "v AND 0x1F = v"
  have "(m OR v) AND 0x1F = (m AND 0x1F) OR (v AND 0x1F)" by (rule word_ao_dist)
  then show ?thesis using m v by simp
qed

lemma unat8: "n < 256 \<Longrightarrow> unat (of_nat n :: 8 word) = n"
  by (simp add: unat_of_nat)

lemma charOfByte_byteOfChar: "charOfByte (byteOfChar c) = c"
proof -
  have "(of_char c :: 8 word) = of_nat (of_char c)" by (rule of_nat_of_char [symmetric])
  then have "unat (of_char c :: 8 word) = of_char c mod 256" by (simp only: unat_of_nat) simp
  then show ?thesis by (simp add: charOfByte_def byteOfChar_def)
qed

lemma map_charOfByte: "map charOfByte (map byteOfChar s) = s"
  by (induction s) (simp_all add: charOfByte_byteOfChar)

subsection \<open>Big-endian numbers\<close>

lemma length_beBytes: "length (beBytes k v) = k"
  by (induction k arbitrary: v) simp_all

lemma beValue_snoc: "beValue (bs @ [b]) = beValue bs * 256 + unat b"
  by (simp add: beValue_def)

lemma beValue_beBytes: "v < 256 ^ k \<Longrightarrow> beValue (beBytes k v) = v"
proof (induction k arbitrary: v)
  case 0
  then show ?case by (simp add: beValue_def)
next
  case (Suc k)
  then have "v div 256 < 256 ^ k" by (simp add: less_mult_imp_div_less mult.commute)
  with Suc.IH have "beValue (beBytes k (v div 256)) = v div 256" by simp
  then show ?case by (simp add: beValue_snoc unat8)
qed

lemma beValue_natBytes: "beValue (natBytes n) = n"
proof (induction n rule: natBytes.induct)
  case (1 n)
  show ?case
  proof (cases "n = 0")
    case True
    then show ?thesis by (simp add: natBytes.simps beValue_def)
  next
    case False
    with 1 have "beValue (natBytes (n div 256)) = n div 256" by simp
    with False show ?thesis
      by (subst natBytes.simps) (simp add: beValue_snoc unat8)
  qed
qed

lemma length_natBytes: "n < 256 ^ k \<Longrightarrow> length (natBytes n) \<le> k"
proof (induction k arbitrary: n)
  case 0
  then show ?case by (simp add: natBytes.simps)
next
  case (Suc k)
  show ?case
  proof (cases "n = 0")
    case True
    then show ?thesis by (simp add: natBytes.simps)
  next
    case False
    from Suc.prems have "n div 256 < 256 ^ k" by (simp add: less_mult_imp_div_less mult.commute)
    with Suc.IH have "length (natBytes (n div 256)) \<le> k" by simp
    with False show ?thesis by (subst natBytes.simps) simp
  qed
qed

subsection \<open>Headers\<close>


lemma isMajor_consts:
  "isMajor PosInt" "isMajor NegInt" "isMajor Bytes" "isMajor Utf" "isMajor Array"
  "isMajor Map'" "isMajor Tag" "isMajor Simple"
  by (simp_all add: isMajor_def PosInt_def NegInt_def Bytes_def Utf_def Array_def Map'_def
      Tag_def Simple_def)

lemma writeType_nonempty: "writeType m v \<noteq> []"
  by (simp add: writeType_def)

lemma hd_writeType:
  assumes "isMajor m"
  shows "hd (writeType m v @ rest) AND MajorTypeMask = m"
    and "hd (writeType m v @ rest) AND MinorTypeMask =
           (if v < 24 then of_nat v else if v < 2 ^ 8 then 24 else if v < 2 ^ 16 then 25
            else if v < 2 ^ 32 then 26 else 27)"
proof -
  have m: "m AND 0x1F = 0" using assms by (simp add: isMajor_def)
  have c: "(24 :: 8 word) AND 0x1F = 24" "(25 :: 8 word) AND 0x1F = 25"
    "(26 :: 8 word) AND 0x1F = 26" "(27 :: 8 word) AND 0x1F = 27" by simp_all
  have s: "v < 24 \<Longrightarrow> (of_nat v :: 8 word) AND 0x1F = of_nat v" by (simp add: low5)
  show "hd (writeType m v @ rest) AND MajorTypeMask = m"
    using hdr_major [OF m s] hdr_major [OF m c(1)] hdr_major [OF m c(2)] hdr_major [OF m c(3)]
      hdr_major [OF m c(4)]
    by (simp add: writeType_def MajorTypeMask_def)
  show "hd (writeType m v @ rest) AND MinorTypeMask =
           (if v < 24 then of_nat v else if v < 2 ^ 8 then 24 else if v < 2 ^ 16 then 25
            else if v < 2 ^ 32 then 26 else 27)"
    using hdr_minor [OF m s] hdr_minor [OF m c(1)] hdr_minor [OF m c(2)] hdr_minor [OF m c(3)]
      hdr_minor [OF m c(4)]
    by (simp add: writeType_def MinorTypeMask_def)
qed

lemma readTypeHeader_ext:
  assumes "h AND MajorTypeMask = m" "h AND MinorTypeMask = mi" "24 \<le> mi" "mi \<le> 27"
    "length bb = 2 ^ (unat mi - 24)"
  shows "readTypeHeader (h # bb @ rest) = Inr (m, beValue bb, rest)"
proof -
  have "\<not> mi < 24" using assms(3) by simp
  with assms show ?thesis by (simp add: readTypeHeader_def Let_def)
qed

lemma readTypeHeader_writeType:
  assumes "isMajor m" "v < 2 ^ 64"
  shows "readTypeHeader (writeType m v @ rest) = Inr (m, v, rest)"
proof -
  obtain h t where ht: "writeType m v @ rest = h # t"
    using writeType_nonempty [of m v] by (cases "writeType m v @ rest") auto
  have maj: "h AND MajorTypeMask = m" using hd_writeType(1) [OF assms(1), of v rest] ht by simp
  have mi: "h AND MinorTypeMask =
           (if v < 24 then of_nat v else if v < 2 ^ 8 then 24 else if v < 2 ^ 16 then 25
            else if v < 2 ^ 32 then 26 else 27)"
    using hd_writeType(2) [OF assms(1), of v rest] ht by simp
  consider "v < 24" | "24 \<le> v" "v < 2 ^ 8" | "2 ^ 8 \<le> v" "v < 2 ^ 16"
    | "2 ^ 16 \<le> v" "v < 2 ^ 32" | "2 ^ 32 \<le> v" by linarith
  then show ?thesis
  proof cases
    case 1
    then have t: "t = rest" using ht by (simp add: writeType_def)
    have "(of_nat v :: 8 word) < 24" using 1 by (simp add: word_less_nat_alt unat8)
    with 1 maj mi t show ?thesis by (simp add: readTypeHeader_def ht unat8)
  next
    case 2
    then have t: "t = beBytes 1 v @ rest" using ht by (simp add: writeType_def)
    have v: "beValue (beBytes 1 v) = v" using 2 by (intro beValue_beBytes) simp
    have "h AND MinorTypeMask = 24" using mi 2 by simp
    from readTypeHeader_ext [OF maj this, of "beBytes 1 v" rest] v
    show ?thesis unfolding ht t by (simp add: length_beBytes del: beBytes.simps)
  next
    case 3
    then have t: "t = beBytes 2 v @ rest" using ht by (simp add: writeType_def)
    have v: "beValue (beBytes 2 v) = v" using 3 by (intro beValue_beBytes) simp
    have "h AND MinorTypeMask = 25" using mi 3 by simp
    from readTypeHeader_ext [OF maj this, of "beBytes 2 v" rest] v
    show ?thesis unfolding ht t by (simp add: length_beBytes del: beBytes.simps)
  next
    case 4
    then have t: "t = beBytes 4 v @ rest" using ht by (simp add: writeType_def)
    have v: "beValue (beBytes 4 v) = v" using 4 by (intro beValue_beBytes) simp
    have "h AND MinorTypeMask = 26" using mi 4 by simp
    from readTypeHeader_ext [OF maj this, of "beBytes 4 v" rest] v
    show ?thesis unfolding ht t by (simp add: length_beBytes del: beBytes.simps)
  next
    case 5
    then have t: "t = beBytes 8 v @ rest" using ht by (simp add: writeType_def)
    have v: "beValue (beBytes 8 v) = v" using assms(2) by (intro beValue_beBytes) simp
    have "h AND MinorTypeMask = 27" using mi 5 by simp
    from readTypeHeader_ext [OF maj this, of "beBytes 8 v" rest] v
    show ?thesis unfolding ht t by (simp add: length_beBytes del: beBytes.simps)
  qed
qed

subsection \<open>Reading what the writer wrote\<close>

lemma readBody_writeType:
  assumes "isMajor m" "length b < 2 ^ 64"
  shows "readBody m (writeType m (length b) @ b @ rest) = Inr (b, rest)"
  using readTypeHeader_writeType [OF assms, of "b @ rest"] by (simp add: readBody_def)

lemma map_charOfByte_comp: "map (charOfByte \<circ> byteOfChar) s = s"
  by (induction s) (simp_all add: charOfByte_byteOfChar)

lemma ReadString_WriteString:
  "length s < 2 ^ 64 \<Longrightarrow> ReadString (WriteString s @ rest) = Inr (s, rest)"
  using readBody_writeType [of Utf "map byteOfChar s" rest]
  by (simp add: ReadString_def WriteString_def isMajor_consts map_charOfByte_comp)

lemma ReadBytes_WriteBytes:
  "length b < 2 ^ 64 \<Longrightarrow> ReadBytes (WriteBytes b @ rest) = Inr (b, rest)"
  using readBody_writeType [of Bytes b rest]
  by (simp add: ReadBytes_def WriteBytes_def isMajor_consts)

lemma ReadArrayLength_WriteArrayHeader:
  "n < 2 ^ 64 \<Longrightarrow> ReadArrayLength (WriteArrayHeader n @ rest) = Inr (n, rest)"
  using readTypeHeader_writeType [of Array n rest]
  by (simp add: ReadArrayLength_def readLength_def WriteArrayHeader_def isMajor_consts)

lemma ReadMapLength_WriteMapHeader:
  "n < 2 ^ 64 \<Longrightarrow> ReadMapLength (WriteMapHeader n @ rest) = Inr (n, rest)"
  using readTypeHeader_writeType [of Map' n rest]
  by (simp add: ReadMapLength_def readLength_def WriteMapHeader_def isMajor_consts)

lemma ReadInt_WriteInt64:
  assumes "- (2 ^ 64) \<le> i" "i < 2 ^ 64"
  shows "ReadInt (WriteInt64 i @ rest) = Inr (i, rest)"
proof (cases "i \<ge> 0")
  case True
  then have "nat i < 2 ^ 64" using assms(2) by (simp add: nat_less_iff)
  from readTypeHeader_writeType [OF isMajor_consts(1) this, of rest] True
  show ?thesis by (simp add: ReadInt_def WriteInt64_def)
next
  case False
  then have "nat (- 1 - i) < 2 ^ 64" using assms(1) by (simp add: nat_less_iff)
  from readTypeHeader_writeType [OF isMajor_consts(2) this, of rest] False
  show ?thesis by (simp add: ReadInt_def WriteInt64_def PosInt_def NegInt_def)
qed

lemma tag_bytes:
  "writeType Tag 2 = [Tag OR TagPosBigInt]" "writeType Tag 3 = [Tag OR TagNegBigInt]"
  "writeType Tag 4 = [Tag OR TagDecimal]"
  by (simp_all add: writeType_def TagPosBigInt_def TagNegBigInt_def TagDecimal_def)

lemma ReadBigInt_WriteBigInt:
  assumes "\<bar>i\<bar> < 256 ^ k" "k < 2 ^ 64"
  shows "ReadBigInt (WriteBigInt i @ rest) = Inr (i, rest)"
proof (cases "i \<ge> 0")
  case True
  let ?b = "natBytes (nat i)"
  have "nat i < 256 ^ k" using assms(1) True by (simp add: nat_less_iff)
  then have "length ?b \<le> k" by (rule length_natBytes)
  then have l: "length ?b < 2 ^ 64" using assms(2) by simp
  have w: "WriteBigInt i @ rest = writeType Tag 2 @ (WriteBytes ?b @ rest)"
    using True by (simp add: WriteBigInt_def tag_bytes)
  have "(2::nat) < 2 ^ 64" by simp
  from readTypeHeader_writeType [OF isMajor_consts(7) this] ReadBytes_WriteBytes [OF l, of rest] True
  show ?thesis unfolding w by (simp add: ReadBigInt_def beValue_natBytes)
next
  case False
  let ?b = "natBytes (nat (- 1 - i))"
  have "nat (- 1 - i) < 256 ^ k" using assms(1) False by (simp add: nat_less_iff)
  then have "length ?b \<le> k" by (rule length_natBytes)
  then have l: "length ?b < 2 ^ 64" using assms(2) by simp
  have w: "WriteBigInt i @ rest = writeType Tag 3 @ (WriteBytes ?b @ rest)"
    using False by (simp add: WriteBigInt_def tag_bytes)
  have "(3::nat) < 2 ^ 64" by simp
  from readTypeHeader_writeType [OF isMajor_consts(7) this] ReadBytes_WriteBytes [OF l, of rest] False
  show ?thesis unfolding w by (simp add: ReadBigInt_def beValue_natBytes)
qed

lemma ReadDecimal_WriteDecimal:
  assumes "- (2 ^ 64) \<le> exponent d" "exponent d < 2 ^ 64" "\<bar>unscaled d\<bar> < 256 ^ k" "k < 2 ^ 64"
  shows "ReadDecimal (WriteDecimal d @ rest) = Inr (d, rest)"
proof -
  have w: "WriteDecimal d @ rest =
      writeType Tag 4 @ (WriteArrayHeader 2 @ (WriteInt64 (exponent d) @ (WriteBigInt (unscaled d) @ rest)))"
    by (simp add: WriteDecimal_def tag_bytes)
  have "(4::nat) < 2 ^ 64" "(2::nat) < 2 ^ 64" by simp_all
  from readTypeHeader_writeType [OF isMajor_consts(7) this(1)]
    ReadArrayLength_WriteArrayHeader [OF this(2)]
    ReadInt_WriteInt64 [OF assms(1,2)] ReadBigInt_WriteBigInt [OF assms(3,4), of rest]
  show ?thesis unfolding w by (simp add: ReadDecimal_def)
qed

lemma readStrings_WriteString:
  "list_all (\<lambda>s. length s < 2 ^ 64) ss
   \<Longrightarrow> readStrings (length ss) (concat (map WriteString ss) @ rest) = Inr (ss, rest)"
  by (induction ss) (simp_all add: ReadString_WriteString)

lemma readByteStrings_WriteBytes:
  "list_all (\<lambda>b. length b < 2 ^ 64) bs
   \<Longrightarrow> readByteStrings (length bs) (concat (map WriteBytes bs) @ rest) = Inr (bs, rest)"
  by (induction bs) (simp_all add: ReadBytes_WriteBytes)

subsection \<open>Number strings\<close>

lemma digitValue_le: "isDigit c \<Longrightarrow> digitValue c \<le> 9"
  by (auto simp: isDigit_def digitValue_def)

lemma digitsValue_bound:
  "list_all isDigit s \<Longrightarrow> digitsValue acc s < (acc + 1) * 10 ^ length s"
proof (induction s arbitrary: acc)
  case Nil
  then show ?case by simp
next
  case (Cons c s)
  then have "digitsValue (acc * 10 + digitValue c) s < (acc * 10 + digitValue c + 1) * 10 ^ length s"
    by simp
  also have "\<dots> \<le> ((acc + 1) * 10) * 10 ^ length s"
    using digitValue_le [of c] Cons.prems by (intro mult_le_mono1) simp
  also have "\<dots> = (acc + 1) * 10 ^ length (c # s)" by (simp add: algebra_simps)
  finally show ?case by simp
qed

lemma bigSetString_bound:
  assumes "bigSetString s = Some i"
  shows "\<bar>i\<bar> < 10 ^ length s"
proof -
  from assms have ne: "s \<noteq> []" by (auto simp: bigSetString_def)
  define s1 where "s1 = (if hd s = CHR ''+'' \<or> hd s = CHR ''-'' then tl s else s)"
  from assms ne have d: "list_all isDigit s1" and i: "\<bar>i\<bar> = int (digitsValue 0 s1)"
    by (auto simp: bigSetString_def Let_def s1_def split: if_splits)
  have l: "length s1 \<le> length s" by (simp add: s1_def)
  have "digitsValue 0 s1 < 10 ^ length s1" using digitsValue_bound [OF d, of 0] by simp
  also have "\<dots> \<le> 10 ^ length s" using l by (intro power_increasing) simp_all
  finally have "digitsValue 0 s1 < 10 ^ length s" .
  then have "int (digitsValue 0 s1) < int (10 ^ length s)" by (simp only: of_nat_less_iff)
  with i show ?thesis by simp
qed

lemma ParseInt_bigSetString:
  assumes "bigSetString s = Some i" "length s \<le> 18"
  shows "ParseInt s = Inr i"
proof -
  from assms have ne: "s \<noteq> []" by (auto simp: bigSetString_def)
  define s1 where "s1 = (if hd s = CHR ''+'' \<or> hd s = CHR ''-'' then tl s else s)"
  from assms ne have d: "list_all isDigit s1" and n1: "s1 \<noteq> []"
    and i: "i = (if hd s = CHR ''-'' then - int (digitsValue 0 s1) else int (digitsValue 0 s1))"
    by (auto simp: bigSetString_def Let_def s1_def split: if_splits)
  have l: "length s1 \<le> 18" using assms(2) by (auto simp: s1_def)
  have "digitsValue 0 s1 < 10 ^ length s1" using digitsValue_bound [OF d, of 0] by simp
  also have "\<dots> \<le> 10 ^ 18" using l by (intro power_increasing) simp_all
  finally have b: "digitsValue 0 s1 < 10 ^ 18" .
  then have "ParseUint s1 = Inr (digitsValue 0 s1)" using d n1 by (simp add: ParseUint_def)
  with b ne i show ?thesis by (simp add: ParseInt_def Let_def s1_def [symmetric])
qed

lemma ParseInt_None:
  assumes "bigSetString s = None"
  shows "ParseInt s = Inl ErrSyntax"
  using assms
  by (auto simp: bigSetString_def ParseInt_def ParseUint_def Let_def split: if_splits)

lemma pow10_le_pow256: "(10::int) ^ k \<le> 256 ^ k"
  by (rule power_mono) simp_all

subsection \<open>One step of the decoder\<close>

lemma PeekHeader_writeType:
  "PeekHeader (writeType m v @ rest) = Inr (hd (writeType m v @ rest))"
  using writeType_nonempty [of m v] by (cases "writeType m v") (simp_all add: PeekHeader_def)

lemmas major_defs = PosInt_def NegInt_def Bytes_def Utf_def Array_def Map'_def Tag_def Simple_def

lemma decode_S:
  assumes "length s < 2 ^ 64"
  shows "DecodeAttributeValueF D (Suc f) (WriteString s @ rest) = Inr (MemberS s, rest)"
proof -
  let ?bs = "WriteString s @ rest"
  have w: "?bs = writeType Utf (length s) @ (map byteOfChar s @ rest)"
    by (simp add: WriteString_def)
  have p: "PeekHeader ?bs = Inr (hd ?bs)" unfolding w by (rule PeekHeader_writeType)
  have m: "hd ?bs AND MajorTypeMask = Utf" unfolding w by (rule hd_writeType(1)) (rule isMajor_consts)
  show ?thesis
    by (simp add: p m ReadString_WriteString [OF assms] Let_def)
qed

lemma decode_B:
  assumes "length b < 2 ^ 64"
  shows "DecodeAttributeValueF D (Suc f) (WriteBytes b @ rest) = Inr (MemberB b, rest)"
proof -
  let ?bs = "WriteBytes b @ rest"
  have w: "?bs = writeType Bytes (length b) @ (b @ rest)"
    by (simp add: WriteBytes_def)
  have p: "PeekHeader ?bs = Inr (hd ?bs)" unfolding w by (rule PeekHeader_writeType)
  have m: "hd ?bs AND MajorTypeMask = Bytes" unfolding w by (rule hd_writeType(1)) (rule isMajor_consts)
  have ne: "Bytes \<noteq> Utf" by (simp add: major_defs)
  show ?thesis
    by (simp add: p m ne ReadBytes_WriteBytes [OF assms] Let_def)
qed

lemma decode_BOOL:
  "DecodeAttributeValueF D (Suc f) (WriteBoolean b @ rest) = Inr (MemberBOOL b, rest)"
proof -
  have r: "readTypeHeader (True' # rest) = Inr (Simple, 21, rest)"
    "readTypeHeader (False' # rest) = Inr (Simple, 20, rest)"
    by (simp_all add: readTypeHeader_def True'_def False'_def MajorTypeMask_def MinorTypeMask_def
        Simple_def)
  have m: "True' AND MajorTypeMask = Simple" "False' AND MajorTypeMask = Simple"
    by (simp_all add: True'_def False'_def MajorTypeMask_def Simple_def)
  have ne: "Simple \<noteq> Utf" "Simple \<noteq> Bytes" "Simple \<noteq> Array" "Simple \<noteq> Map'"
    "Simple \<noteq> PosInt" "Simple \<noteq> NegInt" "True' \<noteq> False'"
    by (simp_all add: major_defs True'_def False'_def)
  show ?thesis
    by (cases b) (simp_all add: WriteBoolean_def PeekHeader_def m ne r Let_def)
qed

lemma decode_NULL:
  "DecodeAttributeValueF D (Suc f) (WriteNull @ rest) = Inr (MemberNULL True, rest)"
proof -
  have r: "readTypeHeader (Nil' # rest) = Inr (Simple, 22, rest)"
    by (simp_all add: readTypeHeader_def Nil'_def MajorTypeMask_def MinorTypeMask_def Simple_def)
  have m: "Nil' AND MajorTypeMask = Simple"
    by (simp_all add: Nil'_def MajorTypeMask_def Simple_def)
  have ne: "Simple \<noteq> Utf" "Simple \<noteq> Bytes" "Simple \<noteq> Array" "Simple \<noteq> Map'"
    "Simple \<noteq> PosInt" "Simple \<noteq> NegInt" "Nil' \<noteq> False'" "Nil' \<noteq> True'"
    by (simp_all add: major_defs True'_def False'_def Nil'_def)
  show ?thesis
    by (simp add: WriteNull_def PeekHeader_def m ne r Let_def)
qed

lemma decode_int:
  assumes "- (2 ^ 64) \<le> i" "i < 2 ^ 64"
  shows "DecodeAttributeValueF D (Suc f) (WriteInt64 i @ rest) = Inr (MemberN (showInt i), rest)"
proof -
  let ?bs = "WriteInt64 i @ rest"
  let ?m = "if i \<ge> 0 then PosInt else NegInt"
  let ?v = "if i \<ge> 0 then nat i else nat (- 1 - i)"
  have w: "?bs = writeType ?m ?v @ rest" by (simp add: WriteInt64_def)
  have im: "isMajor ?m" by (simp add: isMajor_consts)
  have p: "PeekHeader ?bs = Inr (hd ?bs)" unfolding w by (rule PeekHeader_writeType)
  have m: "hd ?bs AND MajorTypeMask = ?m" unfolding w by (rule hd_writeType(1) [OF im])
  have ne: "?m \<noteq> Utf" "?m \<noteq> Bytes" "?m \<noteq> Array" "?m \<noteq> Map'" "?m = PosInt \<or> ?m = NegInt"
    by (simp_all add: major_defs)
  have r: "ReadCborIntegerToString ?bs = Inr (showInt i, rest)"
    by (simp add: ReadCborIntegerToString_def ReadInt_WriteInt64 [OF assms])
  show ?thesis
    using ne by (simp add: p m r Let_def)
qed

lemma decode_big:
  assumes "\<bar>i\<bar> < 256 ^ k" "k < 2 ^ 64"
  shows "DecodeAttributeValueF D (Suc f) (WriteBigInt i @ rest) = Inr (MemberN (showInt i), rest)"
proof -
  let ?bs = "WriteBigInt i @ rest"
  let ?t = "if i \<ge> 0 then 2 else (3::nat)"
  let ?b = "if i \<ge> 0 then natBytes (nat i) else natBytes (nat (- 1 - i))"
  have w: "?bs = writeType Tag ?t @ (WriteBytes ?b @ rest)"
    by (simp add: WriteBigInt_def tag_bytes)
  have p: "PeekHeader ?bs = Inr (hd ?bs)" unfolding w by (rule PeekHeader_writeType)
  have m: "hd ?bs AND MajorTypeMask = Tag" unfolding w by (rule hd_writeType(1)) (rule isMajor_consts)
  have mi: "hd ?bs AND MinorTypeMask = (if i \<ge> 0 then TagPosBigInt else TagNegBigInt)"
    unfolding w using hd_writeType(2) [OF isMajor_consts(7), of ?t]
    by (simp add: TagPosBigInt_def TagNegBigInt_def)
  have ne: "Tag \<noteq> Utf" "Tag \<noteq> Bytes" "Tag \<noteq> Array" "Tag \<noteq> Map'" "Tag \<noteq> PosInt"
    "Tag \<noteq> NegInt" "Tag \<noteq> Simple"
    by (simp_all add: major_defs)
  show ?thesis
    by (simp add: p m mi ne ReadBigInt_WriteBigInt [OF assms] Let_def)
qed

lemma decode_decimal:
  assumes "- (2 ^ 64) \<le> exponent d" "exponent d < 2 ^ 64" "\<bar>unscaled d\<bar> < 256 ^ k" "k < 2 ^ 64"
  shows "DecodeAttributeValueF D (Suc f) (WriteDecimal d @ rest) = Inr (MemberN (decString D d), rest)"
proof -
  let ?bs = "WriteDecimal d @ rest"
  have w: "?bs = writeType Tag 4 @ (WriteArrayHeader 2 @ WriteInt64 (exponent d)
                  @ WriteBigInt (unscaled d) @ rest)"
    by (simp add: WriteDecimal_def tag_bytes)
  have p: "PeekHeader ?bs = Inr (hd ?bs)" unfolding w by (rule PeekHeader_writeType)
  have m: "hd ?bs AND MajorTypeMask = Tag" unfolding w by (rule hd_writeType(1)) (rule isMajor_consts)
  have mi: "hd ?bs AND MinorTypeMask = TagDecimal"
    unfolding w using hd_writeType(2) [OF isMajor_consts(7), of 4]
    by (simp add: TagDecimal_def)
  have ne: "Tag \<noteq> Utf" "Tag \<noteq> Bytes" "Tag \<noteq> Array" "Tag \<noteq> Map'" "Tag \<noteq> PosInt"
    "Tag \<noteq> NegInt" "Tag \<noteq> Simple" "TagDecimal \<noteq> TagPosBigInt" "TagDecimal \<noteq> TagNegBigInt"
    by (simp_all add: major_defs TagDecimal_def TagPosBigInt_def TagNegBigInt_def)
  show ?thesis
    by (simp add: p m mi ne ReadDecimal_WriteDecimal [OF assms] Let_def)
qed

text \<open>The three set tags are written in the two-byte form of the header.\<close>

lemma decode_set_header:
  assumes "t = tagStringSet \<or> t = tagNumberSet \<or> t = tagBinarySet"
  shows "PeekHeader (writeType Tag t @ rest) = Inr (hd (writeType Tag t @ rest))"
    and "hd (writeType Tag t @ rest) AND MajorTypeMask = Tag"
    and "hd (writeType Tag t @ rest) AND MinorTypeMask = 25"
    and "readTypeHeader (writeType Tag t @ rest) = Inr (Tag, t, rest)"
proof -
  show "PeekHeader (writeType Tag t @ rest) = Inr (hd (writeType Tag t @ rest))"
    by (rule PeekHeader_writeType)
  show "hd (writeType Tag t @ rest) AND MajorTypeMask = Tag"
    by (rule hd_writeType(1)) (rule isMajor_consts)
  show "hd (writeType Tag t @ rest) AND MinorTypeMask = 25"
    using assms hd_writeType(2) [OF isMajor_consts(7), of t rest]
    by (auto simp: tagStringSet_def tagNumberSet_def tagBinarySet_def)
  have "t < 2 ^ 64" using assms by (auto simp: tagStringSet_def tagNumberSet_def tagBinarySet_def)
  then show "readTypeHeader (writeType Tag t @ rest) = Inr (Tag, t, rest)"
    by (rule readTypeHeader_writeType [OF isMajor_consts(7)])
qed

lemma tag_ne:
  "Tag \<noteq> Utf" "Tag \<noteq> Bytes" "Tag \<noteq> Array" "Tag \<noteq> Map'" "Tag \<noteq> PosInt"
  "Tag \<noteq> NegInt" "Tag \<noteq> Simple" "(25::byte) \<noteq> TagPosBigInt" "(25::byte) \<noteq> TagNegBigInt"
  "(25::byte) \<noteq> TagDecimal" "tagNumberSet \<noteq> tagStringSet" "tagBinarySet \<noteq> tagStringSet"
  "tagBinarySet \<noteq> tagNumberSet"
  by (simp_all add: major_defs TagDecimal_def TagPosBigInt_def TagNegBigInt_def
      tagStringSet_def tagNumberSet_def tagBinarySet_def)

lemma decode_SS:
  assumes "length ss < 2 ^ 64" "list_all (\<lambda>s. length s < 2 ^ 64) ss"
  shows "DecodeAttributeValueF D (Suc f)
           ((writeType Tag tagStringSet @ WriteArrayHeader (length ss) @ concat (map WriteString ss)) @ rest)
         = Inr (MemberSS ss, rest)"
proof -
  let ?r1 = "WriteArrayHeader (length ss) @ concat (map WriteString ss) @ rest"
  have w: "(writeType Tag tagStringSet @ WriteArrayHeader (length ss) @ concat (map WriteString ss)) @ rest
      = writeType Tag tagStringSet @ ?r1" by simp
  note h = decode_set_header [of tagStringSet ?r1, simplified]
  show ?thesis unfolding w
    by (simp add: h tag_ne ReadArrayLength_WriteArrayHeader [OF assms(1)]
        readStrings_WriteString [OF assms(2)] Let_def)
qed

lemma decode_BS:
  assumes "length bs < 2 ^ 64" "list_all (\<lambda>b. length b < 2 ^ 64) bs"
  shows "DecodeAttributeValueF D (Suc f)
           ((writeType Tag tagBinarySet @ WriteArrayHeader (length bs) @ concat (map WriteBytes bs)) @ rest)
         = Inr (MemberBS bs, rest)"
proof -
  let ?r1 = "WriteArrayHeader (length bs) @ concat (map WriteBytes bs) @ rest"
  have w: "(writeType Tag tagBinarySet @ WriteArrayHeader (length bs) @ concat (map WriteBytes bs)) @ rest
      = writeType Tag tagBinarySet @ ?r1" by simp
  note h = decode_set_header [of tagBinarySet ?r1, simplified]
  show ?thesis unfolding w
    by (simp add: h tag_ne ReadArrayLength_WriteArrayHeader [OF assms(1)]
        readByteStrings_WriteBytes [OF assms(2)] Let_def)
qed

lemma decode_NS:
  assumes "length ns < 2 ^ 64"
    "decodeNumbers D f (length ns) (bs @ rest) = Inr (ns, rest)"
  shows "DecodeAttributeValueF D (Suc f)
           ((writeType Tag tagNumberSet @ WriteArrayHeader (length ns) @ bs) @ rest)
         = Inr (MemberNS ns, rest)"
proof -
  let ?r1 = "WriteArrayHeader (length ns) @ bs @ rest"
  have w: "(writeType Tag tagNumberSet @ WriteArrayHeader (length ns) @ bs) @ rest
      = writeType Tag tagNumberSet @ ?r1" by simp
  note h = decode_set_header [of tagNumberSet ?r1, simplified]
  show ?thesis unfolding w
    by (simp add: h tag_ne ReadArrayLength_WriteArrayHeader [OF assms(1)] assms(2) Let_def)
qed

lemma decode_L:
  assumes "length vs < 2 ^ 64"
    "decodeValues D f (length vs) (bs @ rest) = Inr (vs, rest)"
  shows "DecodeAttributeValueF D (Suc f) ((WriteArrayHeader (length vs) @ bs) @ rest)
         = Inr (MemberL vs, rest)"
proof -
  let ?bs = "writeType Array (length vs) @ (bs @ rest)"
  have w: "(WriteArrayHeader (length vs) @ bs) @ rest = ?bs" by (simp add: WriteArrayHeader_def)
  have p: "PeekHeader ?bs = Inr (hd ?bs)" by (rule PeekHeader_writeType)
  have m: "hd ?bs AND MajorTypeMask = Array" by (rule hd_writeType(1)) (rule isMajor_consts)
  have ne: "Array \<noteq> Utf" "Array \<noteq> Bytes" by (simp_all add: major_defs)
  have r: "ReadArrayLength ?bs = Inr (length vs, bs @ rest)"
    using ReadArrayLength_WriteArrayHeader [OF assms(1), of "bs @ rest"]
    by (simp add: WriteArrayHeader_def)
  show ?thesis unfolding w
    by (simp add: p m ne r assms(2) Let_def)
qed

lemma decode_M:
  assumes "length kvs < 2 ^ 64"
    "decodeEntries D f (length kvs) [] (bs @ rest) = Inr (kvs, rest)"
  shows "DecodeAttributeValueF D (Suc f) ((WriteMapHeader (length kvs) @ bs) @ rest)
         = Inr (MemberM kvs, rest)"
proof -
  let ?bs = "writeType Map' (length kvs) @ (bs @ rest)"
  have w: "(WriteMapHeader (length kvs) @ bs) @ rest = ?bs" by (simp add: WriteMapHeader_def)
  have p: "PeekHeader ?bs = Inr (hd ?bs)" by (rule PeekHeader_writeType)
  have m: "hd ?bs AND MajorTypeMask = Map'" by (rule hd_writeType(1)) (rule isMajor_consts)
  have ne: "Map' \<noteq> Utf" "Map' \<noteq> Bytes" "Map' \<noteq> Array" by (simp_all add: major_defs)
  have r: "ReadMapLength ?bs = Inr (length kvs, bs @ rest)"
    using ReadMapLength_WriteMapHeader [OF assms(1), of "bs @ rest"]
    by (simp add: WriteMapHeader_def)
  show ?thesis unfolding w
    by (simp add: p m ne r assms(2) Let_def)
qed

subsection \<open>The round trip\<close>

lemma p63: "(n::nat) < 2 ^ 63 \<Longrightarrow> n < 2 ^ 64"
  by simp

lemma list_all_p63: "list_all (\<lambda>s. length s < 2 ^ 63) xs \<Longrightarrow> list_all (\<lambda>s. length s < 2 ^ 64) xs"
  by (induction xs) simp_all

lemma abs_pow: "\<bar>i\<bar> < 10 ^ n \<Longrightarrow> \<bar>i :: int\<bar> < 256 ^ n"
  using pow10_le_pow256 [of n] by linarith

text \<open>A number string in the decoder's form is written, and read back as it is.\<close>

lemma number_roundtrip:
  assumes "canonicalNumber D s"
  shows "\<exists>bs. writeStringNumber D s = Inr bs \<and> bs \<noteq> []
           \<and> (\<forall>f rest. DecodeAttributeValueF D (Suc f) (bs @ rest) = Inr (MemberN s, rest))"
proof -
  from assms have len: "length s < 2 ^ 63" by (simp add: canonicalNumber_def)
  then have len64: "length s < 2 ^ 64" by simp
  show ?thesis
  proof (cases "containsAny s ''.eE''")
    case True
    with assms obtain d where d: "decSetString D s = Some d" "decString D d = s"
      "- (2 ^ 63) \<le> exponent d" "exponent d < 2 ^ 63" "\<bar>unscaled d\<bar> < 10 ^ length s"
      by (auto simp: canonicalNumber_def split: option.splits)
    have e: "- (2 ^ 64) \<le> exponent d" "exponent d < 2 ^ 64" using d(3,4) by simp_all
    have w: "writeStringNumber D s = Inr (WriteDecimal d)"
      using True d(1) by (simp add: writeStringNumber_def)
    have "WriteDecimal d \<noteq> []" by (simp add: WriteDecimal_def)
    with w decode_decimal [OF e abs_pow [OF d(5)] len64, of D] d(2) show ?thesis by simp
  next
    case False
    with assms obtain i where i: "bigSetString s = Some i" "showInt i = s"
      by (auto simp: canonicalNumber_def split: option.splits)
    show ?thesis
    proof (cases "length s > 18")
      case True
      have w: "writeStringNumber D s = Inr (WriteBigInt i)"
        using True False i(1) by (simp add: writeStringNumber_def)
      have "WriteBigInt i \<noteq> []" by (simp add: WriteBigInt_def)
      with w decode_big [OF abs_pow [OF bigSetString_bound [OF i(1)]] len64, of D] i(2)
      show ?thesis by simp
    next
      case False
      then have l: "length s \<le> 18" by simp
      have pi: "ParseInt s = Inr i" by (rule ParseInt_bigSetString [OF i(1) l])
      have w: "writeStringNumber D s = Inr (WriteInt64 i)"
        using False \<open>\<not> containsAny s ''.eE''\<close> pi by (simp add: writeStringNumber_def)
      have "\<bar>i\<bar> < 10 ^ length s" by (rule bigSetString_bound [OF i(1)])
      also have "(10::int) ^ length s \<le> 10 ^ 18" using l by (intro power_increasing) simp_all
      finally have "\<bar>i\<bar> < 2 ^ 64" by simp
      then have b: "- (2 ^ 64) \<le> i" "i < 2 ^ 64" by linarith+
      have "WriteInt64 i \<noteq> []" by (simp add: WriteInt64_def writeType_nonempty)
      with w decode_int [OF b, of D] i(2) show ?thesis by simp
    qed
  qed
qed

lemma numbers_roundtrip:
  assumes "list_all (canonicalNumber D) ns"
  shows "\<exists>bs. writeStringNumbers D ns = Inr bs
           \<and> (\<forall>f rest. decodeNumbers D (Suc f) (length ns) (bs @ rest) = Inr (ns, rest))"
  using assms
proof (induction ns)
  case Nil
  show ?case by simp
next
  case (Cons s ns)
  from Cons.prems obtain b where b: "writeStringNumber D s = Inr b"
    "\<And>f rest. DecodeAttributeValueF D (Suc f) (b @ rest) = Inr (MemberN s, rest)"
    using number_roundtrip [of D s] by auto
  from Cons obtain bs where bs: "writeStringNumbers D ns = Inr bs"
    "\<And>f rest. decodeNumbers D (Suc f) (length ns) (bs @ rest) = Inr (ns, rest)"
    by auto
  have "writeStringNumbers D (s # ns) = Inr (b @ bs)" using b(1) bs(1) by simp
  moreover have "decodeNumbers D (Suc f) (length (s # ns)) ((b @ bs) @ rest) = Inr (s # ns, rest)"
    for f rest
    using b(2) [of f "bs @ rest"] bs(2) [of f rest] by simp
  ultimately show ?case by blast
qed

lemma update_new: "k \<notin> fst ` set m \<Longrightarrow> AList.update k v m = m @ [(k, v)]"
  by (induction m) auto


lemma roundtripsI:
  assumes "EncodeAttributeValue D a = Inr bs" "bs \<noteq> []"
    "\<And>f rest. DecodeAttributeValueF D (Suc f) (bs @ rest) = Inr (a, rest)"
  shows "roundtrips D a"
proof -
  have "DecodeAttributeValueF D f (bs @ rest) = Inr (a, rest)" if "length bs < f" for f rest
  proof -
    from that obtain f' where "f = Suc f'" by (cases f) auto
    with assms(3) show ?thesis by simp
  qed
  with assms(1,2) show ?thesis unfolding roundtrips_def by blast
qed

lemma values_roundtrip:
  assumes "\<And>v. v \<in> set vs \<Longrightarrow> roundtrips D v"
  shows "\<exists>bs. encodeValues D vs = Inr bs
           \<and> (\<forall>f rest. length bs < f \<longrightarrow>
                 decodeValues D f (length vs) (bs @ rest) = Inr (vs, rest))"
  using assms
proof (induction vs)
  case Nil
  show ?case by simp
next
  case (Cons v vs)
  from Cons.prems obtain b where b: "EncodeAttributeValue D v = Inr b"
    "\<And>f rest. length b < f \<Longrightarrow> DecodeAttributeValueF D f (b @ rest) = Inr (v, rest)"
    unfolding roundtrips_def by (meson list.set_intros(1))
  from Cons obtain bs where bs: "encodeValues D vs = Inr bs"
    "\<And>f rest. length bs < f \<Longrightarrow> decodeValues D f (length vs) (bs @ rest) = Inr (vs, rest)"
    by (meson list.set_intros(2))
  have "encodeValues D (v # vs) = Inr (b @ bs)" using b(1) bs(1) by simp
  moreover have "decodeValues D f (length (v # vs)) ((b @ bs) @ rest) = Inr (v # vs, rest)"
    if "length (b @ bs) < f" for f rest
    using b(2) [of f "bs @ rest"] bs(2) [of f rest] that by simp
  ultimately show ?case by blast
qed

lemma entries_roundtrip:
  assumes "\<And>kv. kv \<in> set kvs \<Longrightarrow> roundtrips D (snd kv)"
    and "list_all (\<lambda>kv. length (fst kv) < 2 ^ 64) kvs"
  shows "\<exists>bs. encodeEntries D kvs = Inr bs
           \<and> (\<forall>f rest m. length bs < f \<longrightarrow> distinct (map fst (m @ kvs)) \<longrightarrow>
                 decodeEntries D f (length kvs) m (bs @ rest) = Inr (m @ kvs, rest))"
  using assms
proof (induction kvs)
  case Nil
  show ?case by simp
next
  case (Cons kv kvs)
  obtain k v where kv: "kv = (k, v)" by (cases kv)
  from Cons.prems(1) [of kv] kv obtain b where b: "EncodeAttributeValue D v = Inr b"
    "\<And>f rest. length b < f \<Longrightarrow> DecodeAttributeValueF D f (b @ rest) = Inr (v, rest)"
    unfolding roundtrips_def by auto
  from Cons.prems(2) kv have lk: "length k < 2 ^ 64" by simp
  have p1: "roundtrips D (snd kv')" if "kv' \<in> set kvs" for kv'
    using Cons.prems(1) [of kv'] that by simp
  have p2: "list_all (\<lambda>kv. length (fst kv) < 2 ^ 64) kvs" using Cons.prems(2) by simp
  from Cons.IH [OF p1 p2] obtain bs where bs: "encodeEntries D kvs = Inr bs"
    "\<And>f rest m. length bs < f \<Longrightarrow> distinct (map fst (m @ kvs)) \<Longrightarrow>
       decodeEntries D f (length kvs) m (bs @ rest) = Inr (m @ kvs, rest)"
    by blast
  have "encodeEntries D (kv # kvs) = Inr (WriteString k @ b @ bs)"
    using b(1) bs(1) kv by simp
  moreover have
    "decodeEntries D f (length (kv # kvs)) m ((WriteString k @ b @ bs) @ rest) = Inr (m @ kv # kvs, rest)"
    if lt: "length (WriteString k @ b @ bs) < f" and di: "distinct (map fst (m @ kv # kvs))"
    for f rest m
  proof -
    have r: "ReadString (WriteString k @ (b @ bs @ rest)) = Inr (k, b @ bs @ rest)"
      by (rule ReadString_WriteString [OF lk])
    have d: "DecodeAttributeValueF D f (b @ (bs @ rest)) = Inr (v, bs @ rest)"
      using lt by (intro b(2)) simp
    have u: "AList.update k v m = m @ [(k, v)]"
      using di kv by (intro update_new) auto
    have "decodeEntries D f (length kvs) (m @ [(k, v)]) (bs @ rest) = Inr ((m @ [(k, v)]) @ kvs, rest)"
      using lt di kv by (intro bs(2)) simp_all
    with r d u kv show ?thesis by simp
  qed
  ultimately show ?case by blast
qed

lemma wf_roundtrips: "wfAttributeValue D a \<Longrightarrow> roundtrips D a"
proof (induction a)
  case AttributeValueNil
  then show ?case by simp
next
  case (MemberS s)
  then have "length s < 2 ^ 64" by simp
  from decode_S [OF this, of D] show ?case
    by (intro roundtripsI [of D _ "WriteString s"]) (simp_all add: WriteString_def writeType_nonempty)
next
  case (MemberN s)
  then obtain bs where "writeStringNumber D s = Inr bs" "bs \<noteq> []"
    "\<And>f rest. DecodeAttributeValueF D (Suc f) (bs @ rest) = Inr (MemberN s, rest)"
    using number_roundtrip [of D s] by auto
  then show ?case by (intro roundtripsI [of D _ bs]) simp_all
next
  case (MemberB b)
  then have "length b < 2 ^ 64" by simp
  from decode_B [OF this, of D] show ?case
    by (intro roundtripsI [of D _ "WriteBytes b"]) (simp_all add: WriteBytes_def writeType_nonempty)
next
  case (MemberSS ss)
  then have a: "length ss < 2 ^ 63" "list_all (\<lambda>s. length s < 2 ^ 63) ss" "ss \<noteq> []"
    by simp_all
  have l: "length ss < 2 ^ 64" "list_all (\<lambda>s. length s < 2 ^ 64) ss" "ss \<noteq> []"
    using p63 [OF a(1)] list_all_p63 [OF a(2)] a(3) by blast+
  from decode_SS [OF l(1,2), of D] l(3) show ?case
    by (intro roundtripsI [of D _ "writeType Tag tagStringSet @ WriteArrayHeader (length ss)
          @ concat (map WriteString ss)"]) (simp_all add: writeType_nonempty)
next
  case (MemberNS ns)
  then have l: "length ns < 2 ^ 64" "list_all (canonicalNumber D) ns" "ns \<noteq> []" by simp_all
  from numbers_roundtrip [OF l(2)] obtain bs where bs: "writeStringNumbers D ns = Inr bs"
    "\<And>f rest. decodeNumbers D (Suc f) (length ns) (bs @ rest) = Inr (ns, rest)" by blast
  have "DecodeAttributeValueF D (Suc f)
           ((writeType Tag tagNumberSet @ WriteArrayHeader (length ns) @ bs) @ rest)
         = Inr (MemberNS ns, rest)" if "length (writeType Tag tagNumberSet) < Suc f" for f rest
  proof -
    from that writeType_nonempty [of Tag tagNumberSet] obtain f' where f: "f = Suc f'"
      by (cases f) auto
    show ?thesis using decode_NS [OF l(1) bs(2) [of f' rest]] f by simp
  qed
  then have "DecodeAttributeValueF D f
           ((writeType Tag tagNumberSet @ WriteArrayHeader (length ns) @ bs) @ rest)
         = Inr (MemberNS ns, rest)"
    if "length (writeType Tag tagNumberSet @ WriteArrayHeader (length ns) @ bs) < f" for f rest
    using that by (cases f) simp_all
  with bs(1) l(3) show ?case unfolding roundtrips_def
    by (intro exI [of _ "writeType Tag tagNumberSet @ WriteArrayHeader (length ns) @ bs"])
       (simp add: writeType_nonempty)
next
  case (MemberBS bs)
  then have a: "length bs < 2 ^ 63" "list_all (\<lambda>b. length b < 2 ^ 63) bs" "bs \<noteq> []"
    by simp_all
  have l: "length bs < 2 ^ 64" "list_all (\<lambda>b. length b < 2 ^ 64) bs" "bs \<noteq> []"
    using p63 [OF a(1)] list_all_p63 [OF a(2)] a(3) by blast+
  from decode_BS [OF l(1,2), of D] l(3) show ?case
    by (intro roundtripsI [of D _ "writeType Tag tagBinarySet @ WriteArrayHeader (length bs)
          @ concat (map WriteBytes bs)"]) (simp_all add: writeType_nonempty)
next
  case (MemberL vs)
  then have l: "length vs < 2 ^ 64" and r: "\<And>v. v \<in> set vs \<Longrightarrow> roundtrips D v"
    by (simp_all add: list_all_iff)
  from values_roundtrip [OF r] obtain bs where bs: "encodeValues D vs = Inr bs"
    "\<And>f rest. length bs < f \<Longrightarrow> decodeValues D f (length vs) (bs @ rest) = Inr (vs, rest)"
    by blast
  have "DecodeAttributeValueF D f ((WriteArrayHeader (length vs) @ bs) @ rest) = Inr (MemberL vs, rest)"
    if "length (WriteArrayHeader (length vs) @ bs) < f" for f rest
  proof -
    from that obtain f' where f: "f = Suc f'" by (cases f) auto
    have "Suc 0 \<le> length (WriteArrayHeader (length vs))"
      by (simp add: WriteArrayHeader_def writeType_def)
    with that f have "length bs < f'" unfolding length_append by linarith
    from decode_L [OF l bs(2) [OF this]] f show ?thesis by simp
  qed
  with bs(1) show ?case unfolding roundtrips_def
    by (intro exI [of _ "WriteArrayHeader (length vs) @ bs"])
       (simp add: WriteArrayHeader_def writeType_nonempty)
next
  case (MemberM kvs)
  then have l: "length kvs < 2 ^ 64" and di: "distinct (map fst kvs)"
    and lk: "list_all (\<lambda>kv. length (fst kv) < 2 ^ 64) kvs"
    by (auto simp: list_all_iff)
  have r: "roundtrips D (snd kv)" if "kv \<in> set kvs" for kv
    using MemberM that by (cases kv) (auto simp: list_all_iff)
  from entries_roundtrip [OF r lk] obtain bs where bs: "encodeEntries D kvs = Inr bs"
    "\<And>f rest m. length bs < f \<Longrightarrow> distinct (map fst (m @ kvs)) \<Longrightarrow>
       decodeEntries D f (length kvs) m (bs @ rest) = Inr (m @ kvs, rest)"
    by blast
  have "DecodeAttributeValueF D f ((WriteMapHeader (length kvs) @ bs) @ rest) = Inr (MemberM kvs, rest)"
    if "length (WriteMapHeader (length kvs) @ bs) < f" for f rest
  proof -
    from that obtain f' where f: "f = Suc f'" by (cases f) auto
    have "Suc 0 \<le> length (WriteMapHeader (length kvs))"
      by (simp add: WriteMapHeader_def writeType_def)
    with that f have "length bs < f'" unfolding length_append by linarith
    from bs(2) [OF this, of "[]" rest] di
    have "decodeEntries D f' (length kvs) [] (bs @ rest) = Inr (kvs, rest)" by simp
    from decode_M [OF l this] f show ?thesis by simp
  qed
  with bs(1) show ?case unfolding roundtrips_def
    by (intro exI [of _ "WriteMapHeader (length kvs) @ bs"])
       (simp add: WriteMapHeader_def writeType_nonempty)
next
  case (MemberBOOL b)
  from decode_BOOL [of D _ b] show ?case
    by (intro roundtripsI [of D _ "WriteBoolean b"]) (simp_all add: WriteBoolean_def)
next
  case (MemberNULL b)
  then have "b" by simp
  with decode_NULL [of D] show ?case
    by (intro roundtripsI [of D _ WriteNull]) (simp_all add: WriteNull_def)
qed

subsection \<open>The claims on the codec\<close>

lemmas num_defs = containsAny_def bigSetString_def ParseInt_def ParseUint_def isDigit_def
  digitValue_def Let_def

lemmas wire_defs = writeType_def WriteInt64_def WriteBigInt_def WriteBytes_def WriteString_def
  WriteArrayHeader_def WriteMapHeader_def WriteDecimal_def WriteBoolean_def WriteNull_def
  major_defs MajorTypeMask_def MinorTypeMask_def TagPosBigInt_def TagNegBigInt_def TagDecimal_def
  True'_def False'_def Nil'_def byteOfChar_def

lemma hd_WriteInt64:
  "hd (WriteInt64 i) AND MajorTypeMask = (if i \<ge> 0 then PosInt else NegInt)"
  using hd_writeType(1) [OF isMajor_consts(1), of "nat i" "[]"]
    hd_writeType(1) [OF isMajor_consts(2), of "nat (- 1 - i)" "[]"]
  by (simp add: WriteInt64_def)

lemma int64_of_short:
  assumes "bigSetString s = Some i" "length s \<le> 18"
  shows "- (2 ^ 63) \<le> i \<and> i < 2 ^ 63"
proof -
  have "\<bar>i\<bar> < 10 ^ length s" by (rule bigSetString_bound [OF assms(1)])
  also have "(10::int) ^ length s \<le> 10 ^ 18" using assms(2) by (intro power_increasing) simp_all
  finally have "\<bar>i\<bar> < 2 ^ 63" by simp
  then show ?thesis by linarith
qed

text \<open>
  C3, as the code has it. A number string that contains \<open>.\<close>, \<open>e\<close> or \<open>E\<close> goes to
  the decimal parser: a string it rejects fails with a serialization error, any other is
  written under the decimal tag. Of the other strings, one that is longer than 18
  characters, the sign counted, and is an integer (an optional sign and digits) is written
  under the positive or the negative big-integer tag. One of at most 18 characters that is
  an integer fits 64 bits and is written as a positive or negative integer major type;
  one of at most 18 characters that is empty or no integer fails with a serialization
  error.
\<close>

theorem C3_writeStringNumber_dispatch:
  "(containsAny v1 ''.eE'' \<longrightarrow>
      writeStringNumber D v1 =
        (case decSetString D v1 of
           None \<Rightarrow> Inl (SerializationError (''invalid number '' @ v1))
         | Some dec \<Rightarrow> Inr (WriteDecimal dec)))
   \<and> hd (WriteDecimal dec') = Tag OR TagDecimal
   \<and> (\<not> containsAny v2 ''.eE'' \<and> length v2 > 18 \<and> bigSetString v2 = Some b \<longrightarrow>
        writeStringNumber D v2 = Inr (WriteBigInt b)
        \<and> hd (WriteBigInt b) = Tag OR (if b \<ge> 0 then TagPosBigInt else TagNegBigInt))
   \<and> (\<not> containsAny v3 ''.eE'' \<and> length v3 \<le> 18 \<and> bigSetString v3 = Some i \<longrightarrow>
        - (2 ^ 63) \<le> i \<and> i < 2 ^ 63 \<and> ParseInt v3 = Inr i
        \<and> writeStringNumber D v3 = Inr (WriteInt64 i)
        \<and> hd (WriteInt64 i) AND MajorTypeMask = (if i \<ge> 0 then PosInt else NegInt))
   \<and> (\<not> containsAny v4 ''.eE'' \<and> length v4 \<le> 18 \<and> bigSetString v4 = None \<longrightarrow>
        writeStringNumber D v4 = Inl (SerializationError (''invalid number '' @ v4)))"
proof (intro conjI impI)
  assume "containsAny v1 ''.eE''"
  then show "writeStringNumber D v1 =
        (case decSetString D v1 of
           None \<Rightarrow> Inl (SerializationError (''invalid number '' @ v1))
         | Some dec \<Rightarrow> Inr (WriteDecimal dec))"
    by (simp add: writeStringNumber_def)
next
  show "hd (WriteDecimal dec') = Tag OR TagDecimal" by (simp add: WriteDecimal_def)
next
  assume "\<not> containsAny v2 ''.eE'' \<and> length v2 > 18 \<and> bigSetString v2 = Some b"
  then show "writeStringNumber D v2 = Inr (WriteBigInt b)" by (simp add: writeStringNumber_def)
next
  show "hd (WriteBigInt b) = Tag OR (if b \<ge> 0 then TagPosBigInt else TagNegBigInt)"
    by (simp add: WriteBigInt_def)
next
  assume a: "\<not> containsAny v3 ''.eE'' \<and> length v3 \<le> 18 \<and> bigSetString v3 = Some i"
  then show "- (2 ^ 63) \<le> i" "i < 2 ^ 63" using int64_of_short [of v3 i] by simp_all
  from a show p: "ParseInt v3 = Inr i" by (simp add: ParseInt_bigSetString)
  from a p show "writeStringNumber D v3 = Inr (WriteInt64 i)" by (simp add: writeStringNumber_def)
next
  show "hd (WriteInt64 i) AND MajorTypeMask = (if i \<ge> 0 then PosInt else NegInt)"
    by (rule hd_WriteInt64)
next
  assume "\<not> containsAny v4 ''.eE'' \<and> length v4 \<le> 18 \<and> bigSetString v4 = None"
  then show "writeStringNumber D v4 = Inl (SerializationError (''invalid number '' @ v4))"
    by (simp add: writeStringNumber_def ParseInt_None)
qed

theorem C3_writeStringNumber_dispatch_witness:
  "writeStringNumber testNumberOps ''314E-2'' = Inr (WriteDecimal (Decimal 314 (- 2)))
   \<and> writeStringNumber testNumberOps ''123456789012345678901234567890''
        = Inr (WriteBigInt 123456789012345678901234567890)
   \<and> hd (WriteBigInt 123456789012345678901234567890) = Tag OR TagPosBigInt
   \<and> writeStringNumber testNumberOps ''-123'' = Inr (WriteInt64 (- 123))
   \<and> hd (WriteInt64 (- 123)) AND MajorTypeMask = NegInt
   \<and> writeStringNumber testNumberOps ''12a'' = Inl (SerializationError ''invalid number 12a'')
   \<and> writeStringNumber testNumberOps [] = Inl (SerializationError ''invalid number '')"
proof -
  have h1: "containsAny ''314E-2'' ''.eE''" by (simp add: containsAny_def)
  have d1: "decSetString testNumberOps ''314E-2'' = Some (Decimal 314 (- 2))"
    by (simp add: testNumberOps_def testDecSetString_def num_defs)
  have h2: "\<not> containsAny ''123456789012345678901234567890'' ''.eE''
      \<and> length ''123456789012345678901234567890'' > 18
      \<and> bigSetString ''123456789012345678901234567890'' = Some 123456789012345678901234567890"
    by (simp add: num_defs)
  have h3: "\<not> containsAny ''-123'' ''.eE'' \<and> length ''-123'' \<le> 18
      \<and> bigSetString ''-123'' = Some (- 123)"
    by (simp add: num_defs)
  have h4: "\<not> containsAny ''12a'' ''.eE'' \<and> length ''12a'' \<le> 18 \<and> bigSetString ''12a'' = None"
    by (simp add: num_defs)
  have h5: "\<not> containsAny [] ''.eE'' \<and> length ([] :: string) \<le> 18 \<and> bigSetString [] = None"
    by (simp add: num_defs)
  from h1 d1 h2 h3 h4 h5
    C3_writeStringNumber_dispatch
      [of "''314E-2''" testNumberOps "Decimal 314 (- 2)" "''123456789012345678901234567890''"
          123456789012345678901234567890 "''-123''" "- 123" "''12a''"]
    C3_writeStringNumber_dispatch
      [of "''314E-2''" testNumberOps "Decimal 314 (- 2)" "''123456789012345678901234567890''"
          123456789012345678901234567890 "''-123''" "- 123" "[]"]
  show ?thesis by simp
qed

text \<open>
  The threshold counts characters, not digits. A negative number of 18 digits has 19
  characters: it is written under the negative big-integer tag, not as a negative
  integer major type.
\<close>

theorem C3_sign_counted_counterexample:
  "length (filter isDigit ''-123456789012345678'') = 18
   \<and> ParseInt ''-123456789012345678'' = Inr (- 123456789012345678)
   \<and> writeStringNumber testNumberOps ''-123456789012345678''
        = Inr (WriteBigInt (- 123456789012345678))
   \<and> hd (WriteBigInt (- 123456789012345678)) = 0xC3
   \<and> (0xC3 :: byte) AND MajorTypeMask = Tag \<and> Tag \<noteq> NegInt"
  by (simp add: writeStringNumber_def num_defs wire_defs testNumberOps_def testBigFailedValue_def)

text \<open>
  The branch for long integers does not look at the result of \<open>SetString\<close>, as the
  branches for decimals and for short integers do with their parsers: a string of more
  than 18 characters that is no integer is written as a big integer all the same.
\<close>

lemma writeStringNumber_unchecked_SetString:
  "bigSetString ''1234567890123456789x'' = None
   \<and> writeStringNumber testNumberOps ''1234567890123456789x''
        = Inr (WriteBigInt 1234567890123456789)"
  by (simp add: writeStringNumber_def num_defs testNumberOps_def testBigFailedValue_def)

text \<open>
  C1, as the code has it. An attribute value with no nil member, no empty set and no
  \<open>NULL\<close> of \<open>false\<close>, whose number strings are in the decoder's form, whose maps have
  distinct keys and whose lengths are below \<open>2 ^ 63\<close>, is encoded without error, and
  decoding the bytes returns the same value and leaves no byte unread.
\<close>

theorem C1_roundtrip_of_canonical_values:
  assumes "wfAttributeValue D a"
  shows "\<exists>bs. EncodeAttributeValue D a = Inr bs \<and> DecodeAttributeValue D bs = Inr (a, [])"
proof -
  from wf_roundtrips [OF assms] obtain bs where bs: "EncodeAttributeValue D a = Inr bs"
    "\<And>f rest. length bs < f \<Longrightarrow> DecodeAttributeValueF D f (bs @ rest) = Inr (a, rest)"
    unfolding roundtrips_def by blast
  from bs(2) [of "Suc (length bs)" "[]"] have "DecodeAttributeValue D bs = Inr (a, [])"
    by (simp add: DecodeAttributeValue_def)
  with bs(1) show ?thesis by blast
qed

theorem C1_roundtrip_of_canonical_values_witness:
  "wfAttributeValue testNumberOps
     (MemberL [MemberN ''314E-2'', MemberNS [''-5'', ''123456789012345678901234567890''],
        MemberSS [''a''], MemberBS [[1, 2]], MemberB [0xFF], MemberBOOL False, MemberNULL True,
        MemberM [(''s'', MemberS ''abc''), (''n'', MemberN ''123'')]])
   \<and> (\<exists>bs. EncodeAttributeValue testNumberOps
           (MemberL [MemberN ''314E-2'', MemberNS [''-5'', ''123456789012345678901234567890''],
              MemberSS [''a''], MemberBS [[1, 2]], MemberB [0xFF], MemberBOOL False,
              MemberNULL True,
              MemberM [(''s'', MemberS ''abc''), (''n'', MemberN ''123'')]]) = Inr bs
         \<and> DecodeAttributeValue testNumberOps bs =
             Inr (MemberL [MemberN ''314E-2'',
                    MemberNS [''-5'', ''123456789012345678901234567890''],
                    MemberSS [''a''], MemberBS [[1, 2]], MemberB [0xFF], MemberBOOL False,
                    MemberNULL True,
                    MemberM [(''s'', MemberS ''abc''), (''n'', MemberN ''123'')]], []))"
proof -
  have w: "wfAttributeValue testNumberOps
     (MemberL [MemberN ''314E-2'', MemberNS [''-5'', ''123456789012345678901234567890''],
        MemberSS [''a''], MemberBS [[1, 2]], MemberB [0xFF], MemberBOOL False, MemberNULL True,
        MemberM [(''s'', MemberS ''abc''), (''n'', MemberN ''123'')]])"
    by (simp add: canonicalNumber_def num_defs showInt_def showNat.simps digitChar_def
        testNumberOps_def testDecSetString_def testDecString_def)
  from w C1_roundtrip_of_canonical_values [OF w] show ?thesis by blast
qed

text \<open>
  A number string that is not in the decoder's form does not come back: \<open>+5\<close> is
  written as the integer 5, with the bytes of \<open>5\<close>, and read as \<open>5\<close>.
\<close>

theorem C1_number_form_counterexample:
  "EncodeAttributeValue testNumberOps (MemberN ''+5'') = Inr [5]
   \<and> EncodeAttributeValue testNumberOps (MemberN ''5'') = Inr [5]
   \<and> DecodeAttributeValue testNumberOps [5] = Inr (MemberN ''5'', [])
   \<and> MemberN ''5'' \<noteq> MemberN ''+5''"
  by (simp add: writeStringNumber_def num_defs DecodeAttributeValue_def PeekHeader_def
      ReadCborIntegerToString_def ReadInt_def readTypeHeader_def showInt_def showNat.simps
      digitChar_def wire_defs)
end
